theory Spec2Isabelle
  imports Main
begin

section \<open>JavaScript values and string helpers\<close>

text \<open>
  Strings are \<open>string\<close>: sequences of code units below 256, a character being its
  code point (Latin-1). A value that may be \<open>undefined\<close> or \<open>null\<close> is a
  \<open>string option\<close>. \<open>truthy\<close> is JavaScript's truthiness of such a value (the empty
  string is falsy), \<open>orElse v d\<close> is \<open>v || d\<close> and \<open>orNull v\<close> is \<open>v || null\<close>.
  The numbers of the program are the results of \<open>parseInt\<close>: \<open>NaN\<close>, an integer that
  is a double, or an infinity.
\<close>

datatype number = NaN | Num int | PosInfinity | NegInfinity

definition truthy :: "string option \<Rightarrow> bool" where
  "truthy v = (case v of None \<Rightarrow> False | Some s \<Rightarrow> s \<noteq> [])"

definition orElse :: "string option \<Rightarrow> string \<Rightarrow> string" where
  "orElse v d = (case v of None \<Rightarrow> d | Some s \<Rightarrow> if s = [] then d else s)"

definition orNull :: "string option \<Rightarrow> string option" where
  "orNull v = (if truthy v then v else None)"

text \<open>
  The white space and line terminators of the language among these code units: tab,
  line feed, vertical tab, form feed, carriage return, space and no-break space.
\<close>

definition isSpace :: "char \<Rightarrow> bool" where
  "isSpace c = (c \<in> set [CHR '' '', CHR 0x09, CHR 0x0A, CHR 0x0B, CHR 0x0C, CHR 0x0D, CHR 0xA0])"

definition trim :: "string \<Rightarrow> string" where
  "trim s = rev (dropWhile isSpace (rev (dropWhile isSpace s)))"

text \<open>\<open>s.split(c)\<close> for a one-character separator.\<close>

fun splitOn :: "char \<Rightarrow> string \<Rightarrow> string list" where
  "splitOn c [] = [[]]"
| "splitOn c (x # xs) =
     (if x = c then [] # splitOn c xs
      else (case splitOn c xs of [] \<Rightarrow> [[x]] | s # ss \<Rightarrow> (x # s) # ss))"

text \<open>\<open>s.startsWith(p)\<close>, \<open>s.endsWith(p)\<close> and \<open>s.includes(p)\<close>.\<close>

fun startsWith :: "string \<Rightarrow> string \<Rightarrow> bool" where
  "startsWith s [] = True"
| "startsWith [] (p # ps) = False"
| "startsWith (c # cs) (p # ps) = (c = p \<and> startsWith cs ps)"

definition endsWith :: "string \<Rightarrow> string \<Rightarrow> bool" where
  "endsWith s p = startsWith (rev s) (rev p)"

fun includesStr :: "string \<Rightarrow> string \<Rightarrow> bool" where
  "includesStr [] p = (p = [])"
| "includesStr (c # cs) p = (startsWith (c # cs) p \<or> includesStr cs p)"

text \<open>
  \<open>s.toLowerCase()\<close>: \<open>A\<close>..\<open>Z\<close> go to \<open>a\<close>..\<open>z\<close>, and the capital letters of code
  points 192 to 222 (all but the multiplication sign, 215) to the letter 32 above.
\<close>

definition toLowerChar :: "char \<Rightarrow> char" where
  "toLowerChar c =
     (let n = (of_char c :: nat)
      in if (65 \<le> n \<and> n \<le> 90) \<or> (192 \<le> n \<and> n \<le> 222 \<and> n \<noteq> 215)
         then char_of (n + 32) else c)"

definition toLowerCase :: "string \<Rightarrow> string" where
  "toLowerCase s = map toLowerChar s"

text \<open>
  \<open>parseInt(s)\<close> with no radix: leading white space is skipped, a sign is read, a
  \<open>0x\<close> prefix selects radix 16, and the longest prefix of digits is read as an
  integer; there being no digit the result is \<open>NaN\<close>. The result is the Number value
  of that integer: \<open>toDouble\<close> rounds to 53 significant bits, a tie going to the even
  neighbour, and is \<open>None\<close> when the rounded value is beyond the largest double, which
  gives an infinity.
\<close>

definition digitVal :: "nat \<Rightarrow> char \<Rightarrow> nat option" where
  "digitVal radix c =
     (let n = (of_char c :: nat);
          v = (if 48 \<le> n \<and> n \<le> 57 then Some (n - 48)
               else if 97 \<le> n \<and> n \<le> 102 then Some (n - 87)
               else if 65 \<le> n \<and> n \<le> 70 then Some (n - 55)
               else None)
      in case v of None \<Rightarrow> None | Some d \<Rightarrow> if d < radix then Some d else None)"

fun digitsVal :: "nat \<Rightarrow> string \<Rightarrow> int \<Rightarrow> int" where
  "digitsVal radix [] acc = acc"
| "digitsVal radix (c # cs) acc =
     (case digitVal radix c of
        None \<Rightarrow> acc
      | Some d \<Rightarrow> digitsVal radix cs (acc * int radix + int d))"

function bitLength :: "int \<Rightarrow> nat" where
  "bitLength n = (if n \<le> 0 then 0 else Suc (bitLength (n div 2)))"
  by pat_completeness auto

termination bitLength
  by (relation "measure nat") auto

definition toDouble :: "int \<Rightarrow> int option" where
  "toDouble n =
     (let e = bitLength n - 53;
          q = n div 2 ^ e;
          r = n mod 2 ^ e;
          q' = (if 2 * r > 2 ^ e \<or> (2 * r = 2 ^ e \<and> odd q) then q + 1 else q);
          v = q' * 2 ^ e
      in if v \<ge> 2 ^ 1024 then None else Some v)"

definition parseInt :: "string \<Rightarrow> number" where
  "parseInt s =
     (let s1 = dropWhile isSpace s;
          neg = startsWith s1 ''-'';
          s2 = (if startsWith s1 ''-'' \<or> startsWith s1 ''+'' then tl s1 else s1);
          hex = (startsWith s2 ''0x'' \<or> startsWith s2 ''0X'');
          radix = (if hex then 16 else 10);
          s3 = (if hex then drop 2 s2 else s2)
      in case s3 of
           [] \<Rightarrow> NaN
         | c # cs \<Rightarrow>
             (case digitVal radix c of
                None \<Rightarrow> NaN
              | Some d \<Rightarrow>
                  (case toDouble (digitsVal radix s3 0) of
                     None \<Rightarrow> (if neg then NegInfinity else PosInfinity)
                   | Some m \<Rightarrow> Num ((if neg then - 1 else 1) * m))))"

text \<open>\<open>parseInt(v) || d\<close>: \<open>NaN\<close> and \<open>0\<close> are falsy.\<close>

definition parseIntOr :: "string option \<Rightarrow> int \<Rightarrow> number" where
  "parseIntOr v d =
     (case v of
        None \<Rightarrow> Num d
      | Some s \<Rightarrow>
          (case parseInt s of
             NaN \<Rightarrow> Num d
           | Num n \<Rightarrow> if n = 0 then Num d else Num n
           | PosInfinity \<Rightarrow> PosInfinity
           | NegInfinity \<Rightarrow> NegInfinity))"

section \<open>Configuration store (\<open>lib/config.js\<close>)\<close>

datatype error =
    ConfigurationMissing
  | InvalidMode
  | InvalidModeOperation
  | RequiredFieldsMissing
  | S3FieldsMissing
  | BackupDirFailed
  | BackupCreationFailed string
  | LocalDeleteFailed
  | RemoteNotConfigured
  | RemoteDeleteFailed

text \<open>
  The errors are the \<open>Error\<close> objects the code throws, named after the condition:
  \<open>ConfigurationMissing\<close> is "Manual database configuration not set. Please configure in
  Settings.", \<open>InvalidMode\<close> is "Invalid config mode. Must be "env" or "manual"",
  \<open>InvalidModeOperation\<close> is "Cannot set manual config when in ENV mode. Switch to Manual
  mode first." and "Can only reset configuration in Manual mode",
  \<open>RequiredFieldsMissing\<close> is "Host, User, and Database are required fields.",
  \<open>S3FieldsMissing\<close> is "Both Access Key ID and Bucket are required for S3
  configuration.", \<open>BackupDirFailed\<close> is a rejected \<open>fs.mkdir\<close>,
  \<open>BackupCreationFailed m\<close> carries the message \<open>m\<close>, \<open>LocalDeleteFailed\<close> is "Failed to
  delete local backup: ...", \<open>RemoteNotConfigured\<close> is "S3 is not configured" and
  \<open>RemoteDeleteFailed\<close> is "S3 delete failed: ...".
\<close>

record databaseConfig =
  host :: string
  port :: number
  user :: string
  password :: string
  database :: string
  schema :: "string option"
  excludeTables :: "string list"

record backupConfig =
  auto :: bool
  schedule :: string
  retentionDays :: number
  storage :: string
  localPath :: string
  format :: string

record s3Config =
  accessKeyId :: "string option"
  secretAccessKey :: "string option"
  region :: string
  bucket :: "string option"
  prefix :: string
  endpoint :: "string option"
  s3ForcePathStyle :: bool

text \<open>
  \<open>manualConfig\<close> is the module's object \<open>{database, backup, s3}\<close>, each \<open>null\<close> until
  set; \<open>configState\<close> is the module state (\<open>configMode\<close> is a string: it starts as
  \<open>process.env.CONFIG_MODE || "env"\<close>). \<open>process.env\<close> is a map from names to values.
  The temporary override (\<open>tempConfig\<close>, \<open>setTempConfig\<close>, \<open>clearTempConfig\<close>) is left
  out: no getter reads it.
\<close>

record manualConfig =
  mDatabase :: "databaseConfig option"
  mBackup :: "backupConfig option"
  mS3 :: "s3Config option"

record configState =
  configMode :: string
  manual :: manualConfig

type_synonym env = "string \<rightharpoonup> string"

definition parseExcludeTables :: "string \<Rightarrow> string list" where
  "parseExcludeTables s = filter (\<lambda>t. t \<noteq> []) (map trim (splitOn CHR '','' s))"

definition getDatabaseConfig :: "env \<Rightarrow> configState \<Rightarrow> error + databaseConfig" where
  "getDatabaseConfig e st =
     (if configMode st = ''manual'' then
        (case mDatabase (manual st) of
           None \<Rightarrow> Inl ConfigurationMissing
         | Some d \<Rightarrow> Inr d)
      else
        (let excludeTablesEnv = orElse (e ''DB_EXCLUDE_TABLES'') ''''
         in Inr \<lparr> host = orElse (e ''DB_HOST'') ''localhost'',
                  port = parseInt (orElse (e ''DB_PORT'') ''5432''),
                  user = orElse (e ''DB_USER'') ''postgres'',
                  password = orElse (e ''DB_PASSWORD'') '''',
                  database = orElse (e ''DB_NAME'') ''postgres'',
                  schema = orNull (e ''DB_SCHEMA''),
                  excludeTables =
                    (if excludeTablesEnv \<noteq> [] then parseExcludeTables excludeTablesEnv
                     else []) \<rparr>))"

definition defaultBackupConfig :: backupConfig where
  "defaultBackupConfig =
     \<lparr> auto = False, schedule = ''0 2 * * *'', retentionDays = Num 7,
       storage = ''local'', localPath = ''./backups'', format = ''sql'' \<rparr>"

definition getBackupConfig :: "env \<Rightarrow> configState \<Rightarrow> backupConfig" where
  "getBackupConfig e st =
     (if configMode st = ''manual'' then
        (case mBackup (manual st) of
           None \<Rightarrow> defaultBackupConfig
         | Some b \<Rightarrow> b)
      else
        \<lparr> auto = (e ''BACKUP_AUTO'' = Some ''true''),
          schedule = orElse (e ''BACKUP_SCHEDULE'') ''0 2 * * *'',
          retentionDays = parseInt (orElse (e ''BACKUP_RETENTION_DAYS'') ''7''),
          storage = orElse (e ''BACKUP_STORAGE'') ''local'',
          localPath = orElse (e ''BACKUP_LOCAL_PATH'') ''./backups'',
          format = orElse (e ''BACKUP_FORMAT'') ''sql'' \<rparr>)"

definition forcePathStyleServices :: "string list" where
  "forcePathStyleServices =
     [''supabase.co'', ''minio'', ''localhost'', ''127.0.0.1'', ''digitaloceanspaces.com'']"

definition shouldForcePathStyle :: "string option \<Rightarrow> bool" where
  "shouldForcePathStyle ep =
     (if \<not> truthy ep then False
      else (let endpointLower = toLowerCase (the ep)
            in list_ex (\<lambda>service. includesStr endpointLower service) forcePathStyleServices))"

text \<open>
  The auto-detection at the end of \<open>getS3Config\<close>. In manual mode \<open>config\<close> is the stored
  object itself, so the assignment also writes the stored configuration: \<open>getS3Config\<close>
  returns the configuration together with the state after the call.
\<close>

definition autoDetect :: "s3Config \<Rightarrow> s3Config" where
  "autoDetect c =
     (if truthy (endpoint c) \<and> \<not> s3ForcePathStyle c
      then c\<lparr> s3ForcePathStyle := shouldForcePathStyle (endpoint c) \<rparr>
      else c)"

definition unsetS3Config :: s3Config where
  "unsetS3Config =
     \<lparr> accessKeyId = None, secretAccessKey = None, region = ''us-east-1'', bucket = None,
       prefix = '''', endpoint = None, s3ForcePathStyle = False \<rparr>"

definition getS3Config :: "env \<Rightarrow> configState \<Rightarrow> s3Config \<times> configState" where
  "getS3Config e st =
     (if configMode st = ''manual'' then
        (case mS3 (manual st) of
           None \<Rightarrow> (unsetS3Config, st)
         | Some c \<Rightarrow>
             (autoDetect c, st\<lparr> manual := (manual st)\<lparr> mS3 := Some (autoDetect c) \<rparr> \<rparr>))
      else
        (autoDetect
           \<lparr> accessKeyId = e ''AWS_ACCESS_KEY_ID'',
             secretAccessKey = e ''AWS_SECRET_ACCESS_KEY'',
             region = orElse (e ''AWS_REGION'') ''us-east-1'',
             bucket = e ''AWS_S3_BUCKET'',
             prefix = orElse (e ''AWS_S3_PREFIX'') '''',
             endpoint = e ''AWS_S3_ENDPOINT'',
             s3ForcePathStyle = (e ''AWS_S3_FORCE_PATH_STYLE'' = Some ''true'') \<rparr>,
         st))"

definition getConfigMode :: "configState \<Rightarrow> string" where
  "getConfigMode st = configMode st"

text \<open>
  A setter returns what it returns or throws, and the state after the call.
\<close>

definition setConfigMode :: "string \<Rightarrow> configState \<Rightarrow> (error + string) \<times> configState" where
  "setConfigMode mode st =
     (if mode \<noteq> ''env'' \<and> mode \<noteq> ''manual'' then (Inl InvalidMode, st)
      else (Inr mode, st\<lparr> configMode := mode \<rparr>))"

text \<open>
  The request bodies of the setters: a missing field is \<open>None\<close>, a number is its decimal
  text (what \<open>parseInt\<close> converts it to first).
\<close>

datatype excludeTablesInput = ExcludeAbsent | ExcludeString string | ExcludeArray "string list"

record databaseInput =
  hostI :: "string option"
  portI :: "string option"
  userI :: "string option"
  passwordI :: "string option"
  databaseI :: "string option"
  schemaI :: "string option"
  excludeTablesI :: excludeTablesInput

record backupInput =
  autoI :: "bool option"
  scheduleI :: "string option"
  retentionDaysI :: "string option"
  storageI :: "string option"
  localPathI :: "string option"
  formatI :: "string option"

record s3Input =
  accessKeyIdI :: "string option"
  secretAccessKeyI :: "string option"
  regionI :: "string option"
  bucketI :: "string option"
  prefixI :: "string option"
  endpointI :: "string option"
  s3ForcePathStyleI :: "bool option"

definition setManualDatabaseConfig ::
  "databaseInput \<Rightarrow> configState \<Rightarrow> (error + databaseConfig) \<times> configState" where
  "setManualDatabaseConfig config st =
     (if configMode st \<noteq> ''manual'' then (Inl InvalidModeOperation, st)
      else if \<not> truthy (hostI config) \<or> \<not> truthy (userI config) \<or> \<not> truthy (databaseI config)
      then (Inl RequiredFieldsMissing, st)
      else
        (let excl =
               (case excludeTablesI config of
                  ExcludeAbsent \<Rightarrow> []
                | ExcludeString s \<Rightarrow> (if s \<noteq> [] then parseExcludeTables s else [])
                | ExcludeArray ts \<Rightarrow> ts);
             d = \<lparr> host = the (hostI config),
                   port = parseIntOr (portI config) 5432,
                   user = the (userI config),
                   password = orElse (passwordI config) '''',
                   database = the (databaseI config),
                   schema = orNull (schemaI config),
                   excludeTables = excl \<rparr>
         in (Inr d, st\<lparr> manual := (manual st)\<lparr> mDatabase := Some d \<rparr> \<rparr>)))"

definition setManualBackupConfig ::
  "backupInput \<Rightarrow> configState \<Rightarrow> (error + backupConfig) \<times> configState" where
  "setManualBackupConfig config st =
     (if configMode st \<noteq> ''manual'' then (Inl InvalidModeOperation, st)
      else
        (let b = \<lparr> auto = (autoI config = Some True),
                   schedule = orElse (scheduleI config) ''0 2 * * *'',
                   retentionDays = parseIntOr (retentionDaysI config) 7,
                   storage = orElse (storageI config) ''local'',
                   localPath = orElse (localPathI config) ''./backups'',
                   format = orElse (formatI config) ''sql'' \<rparr>
         in (Inr b, st\<lparr> manual := (manual st)\<lparr> mBackup := Some b \<rparr> \<rparr>)))"

definition setManualS3Config ::
  "s3Input \<Rightarrow> configState \<Rightarrow> (error + s3Config) \<times> configState" where
  "setManualS3Config config st =
     (if configMode st \<noteq> ''manual'' then (Inl InvalidModeOperation, st)
      else if (truthy (accessKeyIdI config) \<or> truthy (bucketI config)) \<and>
              (\<not> truthy (accessKeyIdI config) \<or> \<not> truthy (bucketI config))
      then (Inl S3FieldsMissing, st)
      else
        (let explicit = (s3ForcePathStyleI config = Some True);
             forcePathStyle =
               (if truthy (endpointI config) \<and> \<not> explicit
                then shouldForcePathStyle (endpointI config) else explicit);
             c = \<lparr> accessKeyId = orNull (accessKeyIdI config),
                   secretAccessKey = orNull (secretAccessKeyI config),
                   region = orElse (regionI config) ''us-east-1'',
                   bucket = orNull (bucketI config),
                   prefix = orElse (prefixI config) '''',
                   endpoint = orNull (endpointI config),
                   s3ForcePathStyle = forcePathStyle \<rparr>
         in (Inr c, st\<lparr> manual := (manual st)\<lparr> mS3 := Some c \<rparr> \<rparr>)))"

definition emptyManualConfig :: manualConfig where
  "emptyManualConfig = \<lparr> mDatabase = None, mBackup = None, mS3 = None \<rparr>"

definition resetManualConfig :: "configState \<Rightarrow> (error + bool) \<times> configState" where
  "resetManualConfig st =
     (if configMode st \<noteq> ''manual'' then (Inl InvalidModeOperation, st)
      else (Inr True, st\<lparr> manual := emptyManualConfig \<rparr>))"

section \<open>Paths (Node's \<open>path\<close> module, POSIX)\<close>

text \<open>
  \<open>path.basename(p)\<close> drops trailing slashes and returns what follows the last
  remaining slash. \<open>path.join(a, b)\<close> joins its non-empty arguments with a slash and
  normalises the result: empty and \<open>.\<close> segments disappear, a \<open>..\<close> segment removes the
  segment before it (of a relative path it stays when there is none to remove).
\<close>

definition basename :: "string \<Rightarrow> string" where
  "basename p =
     rev (takeWhile (\<lambda>c. c \<noteq> CHR ''/'') (dropWhile (\<lambda>c. c = CHR ''/'') (rev p)))"

fun joinSegments :: "string list \<Rightarrow> string" where
  "joinSegments [] = []"
| "joinSegments [s] = s"
| "joinSegments (s # t # ss) = s @ ''/'' @ joinSegments (t # ss)"

definition normalizeStep :: "bool \<Rightarrow> string list \<Rightarrow> string \<Rightarrow> string list" where
  "normalizeStep allowAboveRoot res seg =
     (if seg = [] \<or> seg = ''.'' then res
      else if seg = ''..'' then
        (if res \<noteq> [] \<and> last res \<noteq> ''..'' then butlast res
         else if allowAboveRoot then res @ [''..''] else res)
      else res @ [seg])"

definition normalizeString :: "string \<Rightarrow> bool \<Rightarrow> string" where
  "normalizeString p allowAboveRoot =
     joinSegments (foldl (normalizeStep allowAboveRoot) [] (splitOn CHR ''/'' p))"

definition normalize :: "string \<Rightarrow> string" where
  "normalize p =
     (if p = [] then ''.''
      else
        (let isAbsolute = (hd p = CHR ''/'');
             trailingSeparator = (last p = CHR ''/'');
             r = normalizeString p (\<not> isAbsolute)
         in if r = [] then (if isAbsolute then ''/'' else if trailingSeparator then ''./'' else ''.'')
            else (if isAbsolute then ''/'' else []) @ r @ (if trailingSeparator then ''/'' else [])))"

definition path_join :: "string \<Rightarrow> string \<Rightarrow> string" where
  "path_join a b =
     (let parts = filter (\<lambda>s. s \<noteq> []) [a, b]
      in if parts = [] then ''.'' else normalize (joinSegments parts))"

section \<open>The archives and the configuration the engine reads\<close>

text \<open>
  \<open>world\<close> is everything the engine's operations read and write. \<open>dbConfig\<close>,
  \<open>backupCfg\<close> and \<open>s3Cfg\<close> are what \<open>getDatabaseConfig()\<close>, \<open>getBackupConfig()\<close> and
  \<open>getS3Config()\<close> return while the operation runs (no operation of the engine calls a
  setter). \<open>files\<close> are the entries of the file system by path, with the size and
  modification time \<open>fs.stat\<close> reports; an entry that is not \<open>removable\<close> is one whose
  \<open>fs.unlink\<close> the file system rejects (a directory, a missing permission, a read-only
  or busy file system). \<open>dirOk\<close> says whether \<open>fs.mkdir\<close> and \<open>fs.readdir\<close> on the
  backup directory succeed. \<open>objects\<close> are the bucket's objects by key, in the order in
  which the service lists them; \<open>s3Ok\<close> says whether the service answers, \<open>maxKeys\<close> is
  the most keys it puts into one response to \<open>listObjectsV2\<close> when the request sets no
  \<open>MaxKeys\<close> (1000 on Amazon S3), and an object that is not \<open>deletable\<close> is one whose
  \<open>deleteObject\<close> the service rejects (a lock, a missing permission). Times are
  milliseconds since the epoch.
\<close>

record fileStat =
  fsize :: nat
  mtime :: int
  removable :: bool

record s3Object =
  Size :: nat
  LastModified :: int
  deletable :: bool

record world =
  dbConfig :: "error + databaseConfig"
  backupCfg :: backupConfig
  s3Cfg :: s3Config
  dirOk :: bool
  files :: "(string \<times> fileStat) list"
  s3Ok :: bool
  maxKeys :: nat
  objects :: "(string \<times> s3Object) list"

datatype location = Local | Remote | Both

record backup =
  filename :: string
  sizeB :: nat
  date :: int
  location :: location
  formatB :: "string option"

section \<open>Local archive (\<open>lib/backup.js\<close>)\<close>

definition ensureBackupDir :: "world \<Rightarrow> error + string" where
  "ensureBackupDir w =
     (if dirOk w then Inr (localPath (backupCfg w)) else Inl BackupDirFailed)"

text \<open>
  \<open>fs.readdir(dir)\<close>: the names \<open>n\<close> with an entry at \<open>path.join(dir, n)\<close>.
  \<open>fs.unlink(p)\<close> removes the entry at \<open>p\<close>; it is rejected (\<open>None\<close>) when there is
  none and when the entry is not removable.
\<close>

definition readdir :: "string \<Rightarrow> (string \<times> fileStat) list \<Rightarrow> string list" where
  "readdir dir fs =
     map (\<lambda>(p, st). basename p) (filter (\<lambda>(p, st). path_join dir (basename p) = p) fs)"

definition unlink :: "string \<Rightarrow> world \<Rightarrow> world option" where
  "unlink p w =
     (case map_of (files w) p of
        None \<Rightarrow> None
      | Some st \<Rightarrow>
          if removable st
          then Some (w\<lparr> files := filter (\<lambda>(q, st). q \<noteq> p) (files w) \<rparr>)
          else None)"

text \<open>
  The loop of \<open>listLocalBackups\<close>; \<open>None\<close> is an exception of \<open>fs.stat\<close>, which the
  function's \<open>catch\<close> turns into the empty list.
\<close>

fun collectLocal :: "string \<Rightarrow> (string \<times> fileStat) list \<Rightarrow> string list \<Rightarrow> backup list option" where
  "collectLocal dir fs [] = Some []"
| "collectLocal dir fs (file # rest) =
     (if endsWith file ''.sql'' \<or> endsWith file ''.dump'' then
        (case map_of fs (path_join dir file) of
           None \<Rightarrow> None
         | Some st \<Rightarrow>
             (case collectLocal dir fs rest of
                None \<Rightarrow> None
              | Some bs \<Rightarrow>
                  Some (\<lparr> filename = file, sizeB = fsize st, date = mtime st,
                          location = Local,
                          formatB = Some (if endsWith file ''.dump'' then ''dump'' else ''sql'') \<rparr>
                        # bs)))
      else collectLocal dir fs rest)"

definition listLocalBackups :: "world \<Rightarrow> backup list" where
  "listLocalBackups w =
     (case ensureBackupDir w of
        Inl err \<Rightarrow> []
      | Inr dir \<Rightarrow>
          (case collectLocal (localPath (backupCfg w)) (files w)
                  (readdir (localPath (backupCfg w)) (files w)) of
             None \<Rightarrow> []
           | Some bs \<Rightarrow> bs))"

definition deleteLocalBackup :: "string \<Rightarrow> world \<Rightarrow> error + world" where
  "deleteLocalBackup name w =
     (let filepath = path_join (localPath (backupCfg w)) (basename name)
      in case unlink filepath w of
           None \<Rightarrow> Inl LocalDeleteFailed
         | Some w' \<Rightarrow> Inr w')"

definition getLocalBackupPath :: "string \<Rightarrow> world \<Rightarrow> string" where
  "getLocalBackupPath name w = path_join (localPath (backupCfg w)) (basename name)"

text \<open>
  A fact about the file system that the statements below refer to: whether it would
  accept \<open>unlink\<close> for a path (it does not for a path that names no entry).
\<close>

definition fileRemovable :: "world \<Rightarrow> string \<Rightarrow> bool" where
  "fileRemovable w p =
     (case map_of (files w) p of None \<Rightarrow> False | Some st \<Rightarrow> removable st)"

section \<open>Remote archive (\<open>lib/storage/s3.js\<close>)\<close>

definition isS3Configured :: "world \<Rightarrow> bool" where
  "isS3Configured w =
     (truthy (accessKeyId (s3Cfg w)) \<and> truthy (secretAccessKey (s3Cfg w)) \<and>
      truthy (bucket (s3Cfg w)))"

text \<open>
  \<open>config.prefix ? config.prefix.replace(/\/$/, "") + "/" : ""\<close>, the start of every
  key the module builds.
\<close>

definition keyPrefix :: "world \<Rightarrow> string" where
  "keyPrefix w =
     (let p = prefix (s3Cfg w)
      in if p \<noteq> [] then (if last p = CHR ''/'' then butlast p else p) @ ''/'' else [])"

text \<open>
  \<open>listObjectsV2\<close> with \<open>Prefix\<close> answers with the objects whose key starts with it,
  at most \<open>maxKeys\<close> of them in one response; the code reads the \<open>Contents\<close> of that one
  response and asks for no continuation. \<open>deleteObject\<close> removes the object of that key
  and succeeds when there is none.
\<close>

definition listS3Backups :: "world \<Rightarrow> backup list" where
  "listS3Backups w =
     (if \<not> isS3Configured w then []
      else if \<not> s3Ok w then []
      else
        (let searchPrefix = keyPrefix w @ ''backup_''
         in map (\<lambda>(key, item). \<lparr> filename = basename key, sizeB = Size item,
                                  date = LastModified item, location = Remote,
                                  formatB = None \<rparr>)
              (take (maxKeys w)
                 (filter (\<lambda>(key, item). startsWith key searchPrefix) (objects w)))))"

definition deleteObject :: "string \<Rightarrow> world \<Rightarrow> world option" where
  "deleteObject key w =
     (if \<not> s3Ok w then None
      else (case map_of (objects w) key of
              None \<Rightarrow> Some w
            | Some item \<Rightarrow>
                if deletable item
                then Some (w\<lparr> objects := filter (\<lambda>(k, i). k \<noteq> key) (objects w) \<rparr>)
                else None))"

text \<open>\<open>objectKey w name\<close> is \<open>prefix + filename\<close>, the key built for a file name.\<close>

definition objectKey :: "world \<Rightarrow> string \<Rightarrow> string" where
  "objectKey w name = keyPrefix w @ name"

definition deleteFromS3 :: "string \<Rightarrow> world \<Rightarrow> error + world" where
  "deleteFromS3 name w =
     (if \<not> isS3Configured w then Inl RemoteNotConfigured
      else (let key = objectKey w name
            in case deleteObject key w of
                 None \<Rightarrow> Inl RemoteDeleteFailed
               | Some w' \<Rightarrow> Inr w'))"

text \<open>
  Three facts about a bucket that the statements below refer to: whether the service
  would accept \<open>deleteObject\<close> for a key (it does for a key that names no object);
  whether every key under the search prefix is the key prefix followed by the key's own
  base name, that is, has no slash after the prefix; and whether the keys under the
  search prefix fit into one response.
\<close>

definition objectDeletable :: "world \<Rightarrow> string \<Rightarrow> bool" where
  "objectDeletable w key =
     (case map_of (objects w) key of None \<Rightarrow> True | Some item \<Rightarrow> deletable item)"

definition flatKeys :: "world \<Rightarrow> bool" where
  "flatKeys w =
     list_all (\<lambda>(key, item). startsWith key (keyPrefix w @ ''backup_'') \<longrightarrow>
                               key = objectKey w (basename key))
       (objects w)"

definition onePage :: "world \<Rightarrow> bool" where
  "onePage w =
     (length (filter (\<lambda>(key, item). startsWith key (keyPrefix w @ ''backup_'')) (objects w))
        \<le> maxKeys w)"

subsection \<open>The merged listing\<close>

text \<open>
  A JavaScript \<open>Map\<close> keeps its keys in insertion order, and \<open>set\<close> on a key it has
  keeps the key's place: an association list. \<open>Array.prototype.sort\<close> is stable, so
  with the comparator \<open>new Date(b.date) - new Date(a.date)\<close> it is the stable sort on
  the negated date.
\<close>

fun mapSet :: "'k \<Rightarrow> 'v \<Rightarrow> ('k \<times> 'v) list \<Rightarrow> ('k \<times> 'v) list" where
  "mapSet k v [] = [(k, v)]"
| "mapSet k v ((k', v') # m) = (if k' = k then (k, v) # m else (k', v') # mapSet k v m)"

definition addLocal :: "(string \<times> backup) list \<Rightarrow> backup \<Rightarrow> (string \<times> backup) list" where
  "addLocal backupMap b = mapSet (filename b) (b\<lparr> location := Local \<rparr>) backupMap"

definition addRemote :: "(string \<times> backup) list \<Rightarrow> backup \<Rightarrow> (string \<times> backup) list" where
  "addRemote backupMap b =
     (case map_of backupMap (filename b) of
        Some existing \<Rightarrow> mapSet (filename b) (existing\<lparr> location := Both \<rparr>) backupMap
      | None \<Rightarrow> mapSet (filename b) (b\<lparr> location := Remote \<rparr>) backupMap)"

definition localBackups :: "world \<Rightarrow> backup list" where
  "localBackups w =
     (if storage (backupCfg w) = ''local'' \<or> storage (backupCfg w) = ''both''
      then listLocalBackups w else [])"

definition remoteBackups :: "world \<Rightarrow> backup list" where
  "remoteBackups w =
     (if (storage (backupCfg w) = ''remote'' \<or> storage (backupCfg w) = ''both'') \<and>
         isS3Configured w
      then listS3Backups w else [])"

definition listAllBackups :: "world \<Rightarrow> backup list" where
  "listAllBackups w =
     (let backupMap = foldl addRemote (foldl addLocal [] (localBackups w)) (remoteBackups w)
      in sort_key (\<lambda>b. - date b) (map snd backupMap))"

record stats =
  total :: nat
  local :: nat
  remote :: nat
  totalSize :: nat

definition statsStep :: "stats \<Rightarrow> backup \<Rightarrow> stats" where
  "statsStep s b =
     (let s1 = s\<lparr> totalSize := totalSize s + sizeB b \<rparr>
      in case location b of
           Local \<Rightarrow> s1\<lparr> local := local s1 + 1 \<rparr>
         | Remote \<Rightarrow> s1\<lparr> remote := remote s1 + 1 \<rparr>
         | Both \<Rightarrow> s1\<lparr> local := local s1 + 1, remote := remote s1 + 1 \<rparr>)"

definition getBackupStats :: "world \<Rightarrow> stats" where
  "getBackupStats w =
     (let allBackups = listAllBackups w
      in foldl statsStep
           \<lparr> total = length allBackups, local = 0, remote = 0, totalSize = 0 \<rparr> allBackups)"



section \<open>Retention (\<open>applyRetentionPolicy\<close>)\<close>

text \<open>
  The clock is the time value \<open>now\<close> that \<open>new Date()\<close> reads and the time zone of the
  host, given as the function \<open>LocalTZA(t, isUTC)\<close> of the language: the offset of local
  time from UTC in milliseconds, at the UTC time \<open>t\<close> when \<open>isUTC\<close> is true and for the
  local time \<open>t\<close> otherwise. \<open>localTime\<close> and \<open>utcTime\<close> are the language's \<open>LocalTime\<close>
  and \<open>UTC\<close>; \<open>utc\<close> is the zone of offset 0.

  \<open>retentionDate\<close> is \<open>new Date()\<close> after \<open>setDate(getDate() - retentionDays)\<close>: the
  local time goes back by that many days of 86400000 ms, the time within the day being
  kept, and is read as UTC again. It is \<open>NaN\<close> (\<open>None\<close>) when \<open>retentionDays\<close> is \<open>NaN\<close>
  or infinite or the result leaves the range of \<open>Date\<close>. A comparison with \<open>NaN\<close> is
  false.
\<close>

type_synonym zone = "int \<Rightarrow> bool \<Rightarrow> int"

definition utc :: zone where
  "utc t isUTC = 0"

definition localTime :: "zone \<Rightarrow> int \<Rightarrow> int" where
  "localTime tza t = t + tza t True"

definition utcTime :: "zone \<Rightarrow> int \<Rightarrow> int" where
  "utcTime tza t = t - tza t False"

definition msPerDay :: int where
  "msPerDay = 86400000"

definition timeClip :: "int \<Rightarrow> int option" where
  "timeClip t = (if \<bar>t\<bar> \<le> 8640000000000000 then Some t else None)"

definition retentionDate :: "zone \<Rightarrow> int \<Rightarrow> number \<Rightarrow> int option" where
  "retentionDate tza now days =
     (case days of
        Num d \<Rightarrow> timeClip (utcTime tza (localTime tza now - d * msPerDay))
      | _ \<Rightarrow> None)"

definition isOld :: "int option \<Rightarrow> backup \<Rightarrow> bool" where
  "isOld cutoff b = (case cutoff of None \<Rightarrow> False | Some c \<Rightarrow> date b < c)"

text \<open>
  The body of the \<open>try\<close>: the result is \<open>True\<close> when \<open>deletedCount++\<close> is reached, and
  the world is the one the deletions made so far have left.
\<close>

definition deleteOld :: "backup \<Rightarrow> world \<Rightarrow> bool \<times> world" where
  "deleteOld b w =
     (case (if location b = Local \<or> location b = Both
            then deleteLocalBackup (filename b) w else Inr w) of
        Inl err \<Rightarrow> (False, w)
      | Inr w1 \<Rightarrow>
          (case (if location b = Remote \<or> location b = Both
                 then deleteFromS3 (filename b) w1 else Inr w1) of
             Inl err \<Rightarrow> (False, w1)
           | Inr w2 \<Rightarrow> (True, w2)))"

fun sweep :: "int option \<Rightarrow> backup list \<Rightarrow> nat \<times> world \<Rightarrow> nat \<times> world" where
  "sweep cutoff [] (deletedCount, w) = (deletedCount, w)"
| "sweep cutoff (b # bs) (deletedCount, w) =
     (if isOld cutoff b then
        (case deleteOld b w of
           (True, w') \<Rightarrow> sweep cutoff bs (deletedCount + 1, w')
         | (False, w') \<Rightarrow> sweep cutoff bs (deletedCount, w'))
      else sweep cutoff bs (deletedCount, w))"

definition applyRetentionPolicy :: "zone \<Rightarrow> int \<Rightarrow> world \<Rightarrow> nat \<times> world" where
  "applyRetentionPolicy tza now w =
     sweep (retentionDate tza now (retentionDays (backupCfg w))) (listAllBackups w) (0, w)"

text \<open>
  \<open>rejecting F G w\<close> is the world \<open>w\<close> in which, besides what is rejected there, the
  file system rejects the unlink of the paths in \<open>F\<close> and the service the deletion of the
  keys in \<open>G\<close>.
\<close>

definition rejecting :: "(string \<Rightarrow> bool) \<Rightarrow> (string \<Rightarrow> bool) \<Rightarrow> world \<Rightarrow> world" where
  "rejecting F G w =
     w\<lparr> files := map (\<lambda>(p, st). (p, st\<lparr> removable := removable st \<and> \<not> F p \<rparr>)) (files w),
        objects := map (\<lambda>(k, i). (k, i\<lparr> deletable := deletable i \<and> \<not> G k \<rparr>)) (objects w) \<rparr>"

section \<open>Creation (\<open>createBackup\<close>)\<close>






section \<open>Example states\<close>

definition supabaseState :: configState where
  "supabaseState =
     \<lparr> configMode = ''manual'',
       manual = \<lparr> mDatabase = None, mBackup = None,
                  mS3 = Some \<lparr> accessKeyId = Some ''key'', secretAccessKey = Some ''secret'',
                               region = ''us-east-1'', bucket = Some ''bucket'', prefix = '''',
                               endpoint = Some ''https://abc.supabase.co/storage/v1/s3'',
                               s3ForcePathStyle = False \<rparr> \<rparr> \<rparr>"

definition supabaseInput :: s3Input where
  "supabaseInput =
     \<lparr> accessKeyIdI = Some ''key'', secretAccessKeyI = Some ''secret'', regionI = None,
       bucketI = Some ''bucket'', prefixI = None,
       endpointI = Some ''https://abc.supabase.co/storage/v1/s3'', s3ForcePathStyleI = None \<rparr>"

definition exampleBackupConfig :: "string \<Rightarrow> backupConfig" where
  "exampleBackupConfig mode =
     \<lparr> auto = False, schedule = ''0 2 * * *'', retentionDays = Num 7,
       storage = mode, localPath = ''./backups'', format = ''sql'' \<rparr>"

definition exampleS3Config :: s3Config where
  "exampleS3Config =
     \<lparr> accessKeyId = Some ''key'', secretAccessKey = Some ''secret'',
       region = ''us-east-1'', bucket = Some ''bucket'', prefix = ''nightly/'',
       endpoint = None, s3ForcePathStyle = False \<rparr>"

definition exampleDatabase :: databaseConfig where
  "exampleDatabase =
     \<lparr> host = ''localhost'', port = Num 5432, user = ''postgres'', password = ''pw'',
       database = ''shop'', schema = None, excludeTables = [] \<rparr>"

text \<open>
  The clock of the examples reads 1700000000000; a day is 86400000 ms, so
  1699308800000 is eight days earlier and 1699481600000 six days earlier.
\<close>

definition bothWorld :: world where
  "bothWorld =
     \<lparr> dbConfig = Inr exampleDatabase, backupCfg = exampleBackupConfig ''both'',
       s3Cfg = exampleS3Config, dirOk = True,
       files = [(''backups/backup_a.sql'', \<lparr> fsize = 10, mtime = 1699308800000, removable = True \<rparr>),
                (''backups/backup_b.dump'', \<lparr> fsize = 20, mtime = 1699481600000, removable = True \<rparr>),
                (''backups/notes.txt'', \<lparr> fsize = 1, mtime = 5, removable = True \<rparr>)],
       s3Ok = True, maxKeys = 1000,
       objects = [(''nightly/backup_b.dump'',
                     \<lparr> Size = 20, LastModified = 1699481700000, deletable = True \<rparr>),
                  (''nightly/backup_c.sql'',
                     \<lparr> Size = 30, LastModified = 1697408000000, deletable = True \<rparr>),
                  (''nightly/readme.txt'',
                     \<lparr> Size = 3, LastModified = 5, deletable = True \<rparr>)] \<rparr>"

definition localModeWorld :: world where
  "localModeWorld =
     \<lparr> dbConfig = Inr exampleDatabase, backupCfg = exampleBackupConfig ''local'',
       s3Cfg = exampleS3Config, dirOk = True,
       files = [(''backups/backup_a.sql'', \<lparr> fsize = 10, mtime = 1699308800000, removable = True \<rparr>)],
       s3Ok = True, maxKeys = 1000,
       objects = [(''nightly/backup_a.sql'',
                     \<lparr> Size = 10, LastModified = 1699308900000, deletable = True \<rparr>)] \<rparr>"

text \<open>
  A world in which two deletions are rejected: the object of \<open>backup_a.sql\<close>, which
  is in both archives, cannot be deleted, and the local entry \<open>backup_d.sql\<close> cannot be
  unlinked. Both artifacts are older than seven days at 1700000000000.
\<close>

definition lockedWorld :: world where
  "lockedWorld =
     \<lparr> dbConfig = Inr exampleDatabase, backupCfg = exampleBackupConfig ''both'',
       s3Cfg = exampleS3Config, dirOk = True,
       files = [(''backups/backup_a.sql'',
                   \<lparr> fsize = 10, mtime = 1699308800000, removable = True \<rparr>),
                (''backups/backup_d.sql'',
                   \<lparr> fsize = 40, mtime = 1699222400000, removable = False \<rparr>)],
       s3Ok = True, maxKeys = 1000,
       objects = [(''nightly/backup_a.sql'',
                     \<lparr> Size = 10, LastModified = 1699308900000, deletable = False \<rparr>)] \<rparr>"

text \<open>
  A bucket of three expired objects behind a service that answers two keys at a time.
\<close>

definition pagedWorld :: world where
  "pagedWorld =
     \<lparr> dbConfig = Inr exampleDatabase, backupCfg = exampleBackupConfig ''remote'',
       s3Cfg = exampleS3Config, dirOk = True, files = [], s3Ok = True, maxKeys = 2,
       objects = [(''nightly/backup_a.sql'',
                     \<lparr> Size = 10, LastModified = 1697408000000, deletable = True \<rparr>),
                  (''nightly/backup_b.sql'',
                     \<lparr> Size = 20, LastModified = 1697408000000, deletable = True \<rparr>),
                  (''nightly/backup_c.sql'',
                     \<lparr> Size = 30, LastModified = 1697408000000, deletable = True \<rparr>)] \<rparr>"


text \<open>
  Two buckets whose keys have a slash after \<open>backup_\<close>: one object under
  \<open>backup_2020/\<close>, and two objects of the same base name; no key prefix is configured.
\<close>

definition bareS3Config :: s3Config where
  "bareS3Config = exampleS3Config\<lparr> prefix := [] \<rparr>"

definition nestedKeyWorld :: world where
  "nestedKeyWorld =
     \<lparr> dbConfig = Inr exampleDatabase, backupCfg = exampleBackupConfig ''remote'',
       s3Cfg = bareS3Config, dirOk = True, files = [], s3Ok = True, maxKeys = 1000,
       objects = [(''backup_2020/db.sql'',
                     \<lparr> Size = 20, LastModified = 1577836800000, deletable = True \<rparr>)] \<rparr>"

definition sameBasenameWorld :: world where
  "sameBasenameWorld =
     \<lparr> dbConfig = Inr exampleDatabase, backupCfg = exampleBackupConfig ''remote'',
       s3Cfg = bareS3Config, dirOk = True,
       files = [(''backups/db.sql'', \<lparr> fsize = 10, mtime = 1699913600000, removable = True \<rparr>)],
       s3Ok = True, maxKeys = 1000,
       objects = [(''backup_a/db.sql'',
                     \<lparr> Size = 20, LastModified = 1577836800000, deletable = True \<rparr>),
                  (''backup_b/db.sql'',
                     \<lparr> Size = 20, LastModified = 1577836800000, deletable = True \<rparr>)] \<rparr>"


section \<open>Properties of the configuration store\<close>

subsection \<open>Strings\<close>

lemma includesStr_append: "includesStr (a @ p @ b) p"
proof (induction a)
  case Nil
  have "startsWith (p @ b) p" by (induction p) auto
  then show ?case by (cases "p @ b") auto
next
  case (Cons c a)
  then show ?case by simp
qed

lemma toLowerCase_append: "toLowerCase (a @ b) = toLowerCase a @ toLowerCase b"
  by (simp add: toLowerCase_def)

lemma services_lower:
  "service \<in> set forcePathStyleServices \<Longrightarrow> toLowerCase service = service"
  by (auto simp: forcePathStyleServices_def toLowerCase_def toLowerChar_def)

lemma shouldForcePathStyle_contains:
  assumes "service \<in> set forcePathStyleServices" and "ep = a @ service @ b"
  shows "shouldForcePathStyle (Some ep)"
proof -
  have ne: "service \<noteq> []" using assms(1) by (auto simp: forcePathStyleServices_def)
  have "toLowerCase ep = toLowerCase a @ service @ toLowerCase b"
    using assms by (simp add: toLowerCase_append services_lower)
  then have "includesStr (toLowerCase ep) service" by (simp add: includesStr_append)
  moreover have "ep \<noteq> []" using assms(2) ne by simp
  ultimately show ?thesis
    using assms(1) by (auto simp: shouldForcePathStyle_def truthy_def list_ex_iff)
qed

lemma shouldForcePathStyle_aws: "\<not> shouldForcePathStyle (Some ''https://s3.amazonaws.com'')"
  by (simp add: shouldForcePathStyle_def truthy_def forcePathStyleServices_def
        toLowerCase_def toLowerChar_def)

lemma getS3Config_force:
  assumes "configMode st = ''manual'' \<longrightarrow>
             (\<exists>c. mS3 (manual st) = Some c \<and> endpoint c = Some ep \<and> \<not> s3ForcePathStyle c)"
      and "configMode st \<noteq> ''manual'' \<longrightarrow>
             e ''AWS_S3_ENDPOINT'' = Some ep \<and> e ''AWS_S3_FORCE_PATH_STYLE'' \<noteq> Some ''true''"
      and "ep \<noteq> []"
  shows "s3ForcePathStyle (fst (getS3Config e st)) = shouldForcePathStyle (Some ep)"
  using assms by (auto simp: getS3Config_def autoDetect_def truthy_def)

lemma getS3Config_after_set:
  assumes "configMode st0 = ''manual''" and "endpointI i = Some ep" and "ep \<noteq> []"
      and "s3ForcePathStyleI i \<noteq> Some True" and "setManualS3Config i st0 = (Inr c, st)"
  shows "s3ForcePathStyle (fst (getS3Config e st)) = shouldForcePathStyle (Some ep)"
proof -
  have ok: "\<not> ((truthy (accessKeyIdI i) \<or> truthy (bucketI i)) \<and>
              (\<not> truthy (accessKeyIdI i) \<or> \<not> truthy (bucketI i)))"
    using assms(1,5) by (auto simp: setManualS3Config_def split: if_splits)
  have st: "configMode st = ''manual''" "mS3 (manual st) = Some c"
       "endpoint c = Some ep" "s3ForcePathStyle c = shouldForcePathStyle (Some ep)"
    using assms ok
    by (auto simp: setManualS3Config_def Let_def orNull_def truthy_def split: if_splits)
  show ?thesis
    using st assms(3) by (simp add: getS3Config_def autoDetect_def truthy_def)
qed

subsection \<open>Getters with nothing set\<close>

text \<open>
  C6. In manual mode, \<open>getDatabaseConfig\<close> throws \<open>ConfigurationMissing\<close> while no
  database configuration is stored, and \<open>getBackupConfig\<close> returns the defaults (schedule
  \<open>0 2 * * *\<close>, 7 retention days, storage \<open>local\<close>, format \<open>sql\<close>) while no backup
  configuration is stored; \<open>resetManualConfig\<close> succeeds there and leaves a state in which
  both hold.
\<close>

theorem getters_unset_manual_mode:
  assumes "configMode st = ''manual''"
  shows "(mDatabase (manual st) = None \<longrightarrow> getDatabaseConfig e st = Inl ConfigurationMissing) \<and>
         (mBackup (manual st) = None \<longrightarrow>
            getBackupConfig e st =
              \<lparr> auto = False, schedule = ''0 2 * * *'', retentionDays = Num 7,
                storage = ''local'', localPath = ''./backups'', format = ''sql'' \<rparr>) \<and>
         fst (resetManualConfig st) = Inr True \<and>
         getDatabaseConfig e (snd (resetManualConfig st)) = Inl ConfigurationMissing \<and>
         getBackupConfig e (snd (resetManualConfig st)) =
              \<lparr> auto = False, schedule = ''0 2 * * *'', retentionDays = Num 7,
                storage = ''local'', localPath = ''./backups'', format = ''sql'' \<rparr>"
  using assms
  by (simp add: getDatabaseConfig_def getBackupConfig_def resetManualConfig_def
        emptyManualConfig_def defaultBackupConfig_def)

theorem getters_unset_manual_mode_witness:
  "getDatabaseConfig Map.empty \<lparr> configMode = ''manual'', manual = emptyManualConfig \<rparr>
     = Inl ConfigurationMissing \<and>
   storage (getBackupConfig Map.empty \<lparr> configMode = ''manual'', manual = emptyManualConfig \<rparr>)
     = ''local'' \<and>
   retentionDays (getBackupConfig Map.empty (snd (resetManualConfig supabaseState))) = Num 7 \<and>
   getDatabaseConfig Map.empty (snd (resetManualConfig supabaseState)) = Inl ConfigurationMissing"
  using getters_unset_manual_mode
          [of "\<lparr> configMode = ''manual'', manual = emptyManualConfig \<rparr>" Map.empty]
        getters_unset_manual_mode [of supabaseState Map.empty]
  by (simp add: emptyManualConfig_def supabaseState_def)

subsection \<open>Path-style inference\<close>

text \<open>
  C7. When the flag was not set explicitly and the endpoint contains one of
  \<open>supabase.co\<close>, \<open>minio\<close>, \<open>localhost\<close>, \<open>127.0.0.1\<close>, \<open>digitaloceanspaces.com\<close>,
  \<open>getS3Config\<close> returns \<open>s3ForcePathStyle = true\<close>; for the endpoint
  \<open>https://s3.amazonaws.com\<close> it returns false. Not set explicitly means one of: env
  mode with \<open>AWS_S3_FORCE_PATH_STYLE\<close> other than \<open>true\<close>; manual mode with a stored
  flag that is false; manual mode where the configuration was stored by
  \<open>setManualS3Config\<close> from an input whose \<open>s3ForcePathStyle\<close> is not true (the setter
  infers the flag itself and the getter returns it).
\<close>

theorem forcePathStyle_auto_derived:
  assumes "(configMode st \<noteq> ''manual'' \<and> e ''AWS_S3_ENDPOINT'' = Some ep \<and>
            e ''AWS_S3_FORCE_PATH_STYLE'' \<noteq> Some ''true'') \<or>
           (configMode st = ''manual'' \<and>
            (\<exists>c. mS3 (manual st) = Some c \<and> endpoint c = Some ep \<and> \<not> s3ForcePathStyle c)) \<or>
           (\<exists>st0 i c. configMode st0 = ''manual'' \<and> endpointI i = Some ep \<and>
              s3ForcePathStyleI i \<noteq> Some True \<and> setManualS3Config i st0 = (Inr c, st))"
  shows "(service \<in> {''supabase.co'', ''minio'', ''localhost'', ''127.0.0.1'',
                      ''digitaloceanspaces.com''} \<and> ep = a @ service @ b
            \<longrightarrow> s3ForcePathStyle (fst (getS3Config e st))) \<and>
         (ep = ''https://s3.amazonaws.com'' \<longrightarrow> \<not> s3ForcePathStyle (fst (getS3Config e st)))"
proof -
  have eq: "s3ForcePathStyle (fst (getS3Config e st)) = shouldForcePathStyle (Some ep)"
    if ne: "ep \<noteq> []"
    using assms
  proof (elim disjE)
    assume "configMode st \<noteq> ''manual'' \<and> e ''AWS_S3_ENDPOINT'' = Some ep \<and>
            e ''AWS_S3_FORCE_PATH_STYLE'' \<noteq> Some ''true''"
    then show ?thesis using ne by (intro getS3Config_force) auto
  next
    assume "configMode st = ''manual'' \<and>
            (\<exists>c. mS3 (manual st) = Some c \<and> endpoint c = Some ep \<and> \<not> s3ForcePathStyle c)"
    then show ?thesis using ne by (intro getS3Config_force) auto
  next
    assume "\<exists>st0 i c. configMode st0 = ''manual'' \<and> endpointI i = Some ep \<and>
              s3ForcePathStyleI i \<noteq> Some True \<and> setManualS3Config i st0 = (Inr c, st)"
    then show ?thesis using ne getS3Config_after_set by blast
  qed
  show ?thesis
  proof (intro conjI impI)
    assume h: "service \<in> {''supabase.co'', ''minio'', ''localhost'', ''127.0.0.1'',
                      ''digitaloceanspaces.com''} \<and> ep = a @ service @ b"
    then have mem: "service \<in> set forcePathStyleServices"
      by (simp add: forcePathStyleServices_def)
    then have "service \<noteq> []" by (auto simp: forcePathStyleServices_def)
    with h have "ep \<noteq> []" by simp
    then show "s3ForcePathStyle (fst (getS3Config e st))"
      using eq shouldForcePathStyle_contains [OF mem] h by simp
  next
    assume "ep = ''https://s3.amazonaws.com''"
    then show "\<not> s3ForcePathStyle (fst (getS3Config e st))"
      using eq shouldForcePathStyle_aws by simp
  qed
qed

theorem forcePathStyle_auto_derived_witness:
  "fst (setManualS3Config supabaseInput \<lparr> configMode = ''manual'', manual = emptyManualConfig \<rparr>)
     = Inr (the (mS3 (manual supabaseState))\<lparr> s3ForcePathStyle := True \<rparr>) \<and>
   s3ForcePathStyle
     (fst (getS3Config Map.empty
        (snd (setManualS3Config supabaseInput
                \<lparr> configMode = ''manual'', manual = emptyManualConfig \<rparr>)))) \<and>
   s3ForcePathStyle (fst (getS3Config Map.empty supabaseState)) \<and>
   \<not> s3ForcePathStyle
       (fst (getS3Config [''AWS_S3_ENDPOINT'' \<mapsto> ''https://s3.amazonaws.com'']
               \<lparr> configMode = ''env'', manual = emptyManualConfig \<rparr>))"
proof -
  define st0 where "st0 = \<lparr> configMode = ''manual'', manual = emptyManualConfig \<rparr>"
  have set: "setManualS3Config supabaseInput st0 =
               (Inr (the (mS3 (manual supabaseState))\<lparr> s3ForcePathStyle := True \<rparr>),
                snd (setManualS3Config supabaseInput st0))"
    by (simp add: st0_def setManualS3Config_def supabaseInput_def supabaseState_def truthy_def
          orNull_def orElse_def emptyManualConfig_def shouldForcePathStyle_def
          forcePathStyleServices_def toLowerCase_def toLowerChar_def Let_def)
  have h1: "(configMode (snd (setManualS3Config supabaseInput st0)) \<noteq> ''manual'' \<and>
             Map.empty ''AWS_S3_ENDPOINT'' = Some ''https://abc.supabase.co/storage/v1/s3'' \<and>
             Map.empty ''AWS_S3_FORCE_PATH_STYLE'' \<noteq> Some ''true'') \<or>
           (configMode (snd (setManualS3Config supabaseInput st0)) = ''manual'' \<and>
            (\<exists>c. mS3 (manual (snd (setManualS3Config supabaseInput st0))) = Some c \<and>
                 endpoint c = Some ''https://abc.supabase.co/storage/v1/s3'' \<and>
                 \<not> s3ForcePathStyle c)) \<or>
           (\<exists>st0' i c. configMode st0' = ''manual'' \<and>
              endpointI i = Some ''https://abc.supabase.co/storage/v1/s3'' \<and>
              s3ForcePathStyleI i \<noteq> Some True \<and>
              setManualS3Config i st0' = (Inr c, snd (setManualS3Config supabaseInput st0)))"
    using set by (intro disjI2) (auto simp: st0_def supabaseInput_def intro!: exI)
  have h2: "(configMode supabaseState \<noteq> ''manual'' \<and>
             Map.empty ''AWS_S3_ENDPOINT'' = Some ''https://abc.supabase.co/storage/v1/s3'' \<and>
             Map.empty ''AWS_S3_FORCE_PATH_STYLE'' \<noteq> Some ''true'') \<or>
           (configMode supabaseState = ''manual'' \<and>
            (\<exists>c. mS3 (manual supabaseState) = Some c \<and>
                 endpoint c = Some ''https://abc.supabase.co/storage/v1/s3'' \<and>
                 \<not> s3ForcePathStyle c)) \<or>
           (\<exists>st0' i c. configMode st0' = ''manual'' \<and>
              endpointI i = Some ''https://abc.supabase.co/storage/v1/s3'' \<and>
              s3ForcePathStyleI i \<noteq> Some True \<and>
              setManualS3Config i st0' = (Inr c, supabaseState))"
    by (simp add: supabaseState_def)
  have h3: "(configMode \<lparr> configMode = ''env'', manual = emptyManualConfig \<rparr> \<noteq> ''manual'' \<and>
             [''AWS_S3_ENDPOINT'' \<mapsto> ''https://s3.amazonaws.com''] ''AWS_S3_ENDPOINT''
               = Some ''https://s3.amazonaws.com'' \<and>
             [''AWS_S3_ENDPOINT'' \<mapsto> ''https://s3.amazonaws.com''] ''AWS_S3_FORCE_PATH_STYLE''
               \<noteq> Some ''true'') \<or>
           (configMode \<lparr> configMode = ''env'', manual = emptyManualConfig \<rparr> = ''manual'' \<and>
            (\<exists>c. mS3 (manual \<lparr> configMode = ''env'', manual = emptyManualConfig \<rparr>) = Some c \<and>
                 endpoint c = Some ''https://s3.amazonaws.com'' \<and> \<not> s3ForcePathStyle c)) \<or>
           (\<exists>st0' i c. configMode st0' = ''manual'' \<and>
              endpointI i = Some ''https://s3.amazonaws.com'' \<and>
              s3ForcePathStyleI i \<noteq> Some True \<and>
              setManualS3Config i st0' = (Inr c, \<lparr> configMode = ''env'', manual = emptyManualConfig \<rparr>))"
    by simp
  have f1: "fst (setManualS3Config supabaseInput st0)
              = Inr (the (mS3 (manual supabaseState))\<lparr> s3ForcePathStyle := True \<rparr>)"
    using set by (metis fst_conv)
  have split: "''https://abc.supabase.co/storage/v1/s3''
                 = ''https://abc.'' @ ''supabase.co'' @ ''/storage/v1/s3''"
    by simp
  have mem: "''supabase.co'' \<in> {''supabase.co'', ''minio'', ''localhost'', ''127.0.0.1'',
                      ''digitaloceanspaces.com''}"
    by simp
  note t1 = forcePathStyle_auto_derived
              [where service = "''supabase.co''" and a = "''https://abc.''"
                 and b = "''/storage/v1/s3''", OF h1, THEN conjunct1, rule_format,
               OF conjI [OF mem split]]
  note t2 = forcePathStyle_auto_derived
              [where service = "''supabase.co''" and a = "''https://abc.''"
                 and b = "''/storage/v1/s3''", OF h2, THEN conjunct1, rule_format,
               OF conjI [OF mem split]]
  note t3 = forcePathStyle_auto_derived [OF h3, THEN conjunct2, rule_format, OF refl]
  show ?thesis
    using f1 t1 t2 t3 unfolding st0_def by (intro conjI)
qed

subsection \<open>Setters outside manual mode\<close>

text \<open>
  C8, as the claim states it, fails for \<open>setConfigMode\<close>: called in env mode with
  \<open>manual\<close> it does not throw and it changes the stored mode.
\<close>

theorem setConfigMode_in_env_mode_counterexample:
  "fst (setConfigMode ''manual'' \<lparr> configMode = ''env'', manual = emptyManualConfig \<rparr>)
     \<noteq> Inl InvalidModeOperation \<and>
   snd (setConfigMode ''manual'' \<lparr> configMode = ''env'', manual = emptyManualConfig \<rparr>)
     \<noteq> \<lparr> configMode = ''env'', manual = emptyManualConfig \<rparr>"
  by (simp add: setConfigMode_def)

text \<open>
  C8, amended. Outside manual mode \<open>setManualDatabaseConfig\<close>, \<open>setManualBackupConfig\<close>,
  \<open>setManualS3Config\<close> and \<open>resetManualConfig\<close> throw \<open>InvalidModeOperation\<close> and leave the
  state as it was; \<open>setConfigMode\<close> has no such guard: in either mode it switches to
  \<open>env\<close> or \<open>manual\<close> and rejects only another mode name, with \<open>InvalidMode\<close>.
\<close>

theorem manual_setters_rejected_outside_manual_mode:
  assumes "configMode st \<noteq> ''manual''"
  shows "setManualDatabaseConfig d st = (Inl InvalidModeOperation, st) \<and>
         setManualBackupConfig b st = (Inl InvalidModeOperation, st) \<and>
         setManualS3Config s st = (Inl InvalidModeOperation, st) \<and>
         resetManualConfig st = (Inl InvalidModeOperation, st) \<and>
         setConfigMode mode st =
           (if mode = ''env'' \<or> mode = ''manual''
            then (Inr mode, st\<lparr> configMode := mode \<rparr>) else (Inl InvalidMode, st)) \<and>
         (\<forall>st'. setConfigMode mode st' =
           (if mode = ''env'' \<or> mode = ''manual''
            then (Inr mode, st'\<lparr> configMode := mode \<rparr>) else (Inl InvalidMode, st')))"
  using assms
  by (simp add: setManualDatabaseConfig_def setManualBackupConfig_def setManualS3Config_def
        resetManualConfig_def setConfigMode_def)

theorem manual_setters_rejected_outside_manual_mode_witness:
  "resetManualConfig \<lparr> configMode = ''env'', manual = manual supabaseState \<rparr>
     = (Inl InvalidModeOperation, \<lparr> configMode = ''env'', manual = manual supabaseState \<rparr>) \<and>
   setManualBackupConfig
       \<lparr> autoI = Some True, scheduleI = None, retentionDaysI = Some ''30'',
         storageI = Some ''both'', localPathI = None, formatI = None \<rparr>
       \<lparr> configMode = ''env'', manual = manual supabaseState \<rparr>
     = (Inl InvalidModeOperation, \<lparr> configMode = ''env'', manual = manual supabaseState \<rparr>) \<and>
   setConfigMode ''manual'' \<lparr> configMode = ''env'', manual = manual supabaseState \<rparr>
     = (Inr ''manual'', \<lparr> configMode = ''manual'', manual = manual supabaseState \<rparr>) \<and>
   setConfigMode ''manual'' \<lparr> configMode = ''manual'', manual = manual supabaseState \<rparr>
     = (Inr ''manual'', \<lparr> configMode = ''manual'', manual = manual supabaseState \<rparr>)"
  using manual_setters_rejected_outside_manual_mode
          [of "\<lparr> configMode = ''env'', manual = manual supabaseState \<rparr>" _
              "\<lparr> autoI = Some True, scheduleI = None, retentionDaysI = Some ''30'',
                 storageI = Some ''both'', localPathI = None, formatI = None \<rparr>" _ "''manual''"]
  by simp

section \<open>Properties of the merged listing\<close>

subsection \<open>The map and the two loops\<close>

lemma map_fst_mapSet:
  "map fst (mapSet k v m) = (if k \<in> fst ` set m then map fst m else map fst m @ [k])"
  by (induction m) force+

lemma distinct_mapSet: "distinct (map fst m) \<Longrightarrow> distinct (map fst (mapSet k v m))"
  by (simp add: map_fst_mapSet)

lemma map_of_mapSet: "map_of (mapSet k v m) = (map_of m)(k \<mapsto> v)"
  by (induction m) (auto simp: fun_eq_iff)

lemma find_append:
  "find P (xs @ ys) = (case find P xs of None \<Rightarrow> find P ys | Some x \<Rightarrow> Some x)"
  by (induction xs) auto

lemma distinct_foldl_addLocal:
  "distinct (map fst m) \<Longrightarrow> distinct (map fst (foldl addLocal m ls))"
  by (induction ls arbitrary: m) (simp_all add: addLocal_def distinct_mapSet)

lemma distinct_foldl_addRemote:
  "distinct (map fst m) \<Longrightarrow> distinct (map fst (foldl addRemote m rs))"
  by (induction rs arbitrary: m) (simp_all add: addRemote_def distinct_mapSet split: option.splits)

lemma map_of_foldl_addLocal:
  "map_of (foldl addLocal m ls) k =
     (case find (\<lambda>b. filename b = k) (rev ls) of
        None \<Rightarrow> map_of m k
      | Some b \<Rightarrow> Some (b\<lparr> location := Local \<rparr>))"
proof (induction ls arbitrary: m)
  case Nil
  then show ?case by simp
next
  case (Cons b ls)
  show ?case
    unfolding foldl_Cons Cons.IH
    by (simp add: find_append addLocal_def map_of_mapSet split: option.splits)
qed

lemma find_names_None: "find (\<lambda>b. filename b = k) xs = None \<longleftrightarrow> k \<notin> filename ` set xs"
  by (auto simp: find_None_iff)

lemma find_names_Some: "find (\<lambda>b. filename b = k) xs = Some x \<Longrightarrow> filename x = k \<and> x \<in> set xs"
  by (auto simp: find_Some_iff)

lemma map_of_foldl_addRemote:
  "distinct (map filename rs) \<Longrightarrow>
   map_of (foldl addRemote m rs) k =
     (case find (\<lambda>b. filename b = k) rs of
        None \<Rightarrow> map_of m k
      | Some b \<Rightarrow>
          Some (case map_of m k of
                  Some existing \<Rightarrow> existing\<lparr> location := Both \<rparr>
                | None \<Rightarrow> b\<lparr> location := Remote \<rparr>))"
proof (induction rs arbitrary: m)
  case Nil
  then show ?case by simp
next
  case (Cons b rs)
  then have fresh: "filename b \<notin> filename ` set rs" and d: "distinct (map filename rs)"
    by simp_all
  have none: "find (\<lambda>x. filename x = filename b) rs = None"
    using fresh by (simp add: find_names_None)
  show ?case
    unfolding foldl_Cons Cons.IH [OF d]
    using none
    by (auto simp: addRemote_def map_of_mapSet split: option.splits)
qed

text \<open>The map the two loops build, key by key.\<close>

lemma backupMap_lookup:
  assumes "distinct (map filename rs)"
  shows "map_of (foldl addRemote (foldl addLocal [] ls) rs) k =
           (case find (\<lambda>b. filename b = k) rs of
              None \<Rightarrow> (case find (\<lambda>b. filename b = k) (rev ls) of
                          None \<Rightarrow> None
                        | Some l \<Rightarrow> Some (l\<lparr> location := Local \<rparr>))
            | Some r \<Rightarrow> (case find (\<lambda>b. filename b = k) (rev ls) of
                          None \<Rightarrow> Some (r\<lparr> location := Remote \<rparr>)
                        | Some l \<Rightarrow> Some (l\<lparr> location := Both \<rparr>)))"
  by (simp add: map_of_foldl_addRemote [OF assms] map_of_foldl_addLocal split: option.splits)

lemma backupMap_entry:
  assumes "distinct (map filename rs)"
      and "(k, v) \<in> set (foldl addRemote (foldl addLocal [] ls) rs)"
  shows "filename v = k \<and>
         (k \<in> filename ` set ls \<or> k \<in> filename ` set rs) \<and>
         location v = (if k \<in> filename ` set ls
                       then (if k \<in> filename ` set rs then Both else Local) else Remote)"
proof -
  have dist: "distinct (map fst (foldl addRemote (foldl addLocal [] ls) rs))"
    by (simp add: distinct_foldl_addRemote distinct_foldl_addLocal)
  then have look: "map_of (foldl addRemote (foldl addLocal [] ls) rs) k = Some v"
    using assms(2) by simp
  show ?thesis
  proof (cases "find (\<lambda>b. filename b = k) rs")
    case None
    note rNone = this
    then have kr: "k \<notin> filename ` set rs" by (simp add: find_names_None)
    show ?thesis
    proof (cases "find (\<lambda>b. filename b = k) (rev ls)")
      case None
      then show ?thesis using look rNone by (simp add: backupMap_lookup [OF assms(1)])
    next
      case (Some l)
      then have l: "filename l = k" "l \<in> set ls" using find_names_Some [OF Some] by simp_all
      then have kl: "k \<in> filename ` set ls" by force
      have "v = l\<lparr> location := Local \<rparr>"
        using look rNone Some by (simp add: backupMap_lookup [OF assms(1)])
      then show ?thesis using kl kr l by simp
    qed
  next
    case (Some r)
    note rSome = this
    then have r: "filename r = k" "r \<in> set rs" using find_names_Some [OF Some] by simp_all
    then have kr: "k \<in> filename ` set rs" by force
    show ?thesis
    proof (cases "find (\<lambda>b. filename b = k) (rev ls)")
      case None
      then have kl: "k \<notin> filename ` set ls" using find_names_None [of k "rev ls"] by simp
      have "v = r\<lparr> location := Remote \<rparr>"
        using look rSome None by (simp add: backupMap_lookup [OF assms(1)])
      then show ?thesis using kl kr r by simp
    next
      case (Some l)
      then have l: "filename l = k" "l \<in> set ls" using find_names_Some [OF Some] by simp_all
      then have kl: "k \<in> filename ` set ls" by force
      have "v = l\<lparr> location := Both \<rparr>"
        using look rSome Some by (simp add: backupMap_lookup [OF assms(1)])
      then show ?thesis using kl kr l by simp
    qed
  qed
qed

lemma backupMap_keys:
  assumes "distinct (map filename rs)"
  shows "fst ` set (foldl addRemote (foldl addLocal [] ls) rs) = filename ` set ls \<union> filename ` set rs"
proof -
  have "fst ` set (foldl addRemote (foldl addLocal [] ls) rs)
          = dom (map_of (foldl addRemote (foldl addLocal [] ls) rs))"
    by (simp add: dom_map_of_conv_image_fst)
  also have "\<dots> = filename ` set ls \<union> filename ` set rs"
  proof (rule set_eqI)
    fix k
    have l: "k \<in> filename ` set ls \<longleftrightarrow> find (\<lambda>b. filename b = k) (rev ls) \<noteq> None"
      using find_names_None [of k "rev ls"] by simp
    have r: "k \<in> filename ` set rs \<longleftrightarrow> find (\<lambda>b. filename b = k) rs \<noteq> None"
      using find_names_None [of k rs] by simp
    show "k \<in> dom (map_of (foldl addRemote (foldl addLocal [] ls) rs))
            \<longleftrightarrow> k \<in> filename ` set ls \<union> filename ` set rs"
      unfolding Un_iff l r dom_def
      by (simp add: backupMap_lookup [OF assms] split: option.splits)
  qed
  finally show ?thesis .
qed

lemma distinct_map_sort_key: "distinct (map g (sort_key f xs)) = distinct (map g xs)"
  by (simp add: distinct_map)

lemma listAllBackups_props:
  assumes "distinct (map filename (remoteBackups w))"
  shows "filename ` set (listAllBackups w)
           = filename ` set (localBackups w) \<union> filename ` set (remoteBackups w) \<and>
         distinct (map filename (listAllBackups w)) \<and>
         (\<forall>b \<in> set (listAllBackups w).
            location b =
              (if filename b \<in> filename ` set (localBackups w)
               then (if filename b \<in> filename ` set (remoteBackups w) then Both else Local)
               else Remote)) \<and>
         sorted_wrt (\<lambda>a b. date b \<le> date a) (listAllBackups w)"
proof -
  define m where "m = foldl addRemote (foldl addLocal [] (localBackups w)) (remoteBackups w)"
  have L: "listAllBackups w = sort_key (\<lambda>b. - date b) (map snd m)"
    by (simp add: listAllBackups_def m_def)
  have entry: "filename v = k \<and>
         location v = (if k \<in> filename ` set (localBackups w)
                       then (if k \<in> filename ` set (remoteBackups w) then Both else Local)
                       else Remote)" if "(k, v) \<in> set m" for k v
    using backupMap_entry [OF assms] that unfolding m_def by blast
  have names: "map filename (map snd m) = map fst m"
    using entry by (auto simp: list_eq_iff_nth_eq)
  have dist: "distinct (map fst m)"
    by (simp add: m_def distinct_foldl_addRemote distinct_foldl_addLocal)
  have "filename ` set (listAllBackups w) = set (map filename (map snd m))"
    by (simp add: L image_image)
  also have "\<dots> = fst ` set m" by (simp only: names set_map)
  also have "\<dots> = filename ` set (localBackups w) \<union> filename ` set (remoteBackups w)"
    unfolding m_def by (rule backupMap_keys [OF assms])
  finally have one: "filename ` set (listAllBackups w)
           = filename ` set (localBackups w) \<union> filename ` set (remoteBackups w)" .
  have "distinct (map filename (map snd m))" by (simp only: names dist)
  then have two: "distinct (map filename (listAllBackups w))"
    unfolding L by (simp only: distinct_map_sort_key)
  have three: "\<forall>b \<in> set (listAllBackups w).
            location b =
              (if filename b \<in> filename ` set (localBackups w)
               then (if filename b \<in> filename ` set (remoteBackups w) then Both else Local)
               else Remote)"
  proof
    fix b assume "b \<in> set (listAllBackups w)"
    then obtain k where "(k, b) \<in> set m" by (auto simp: L)
    then show "location b =
              (if filename b \<in> filename ` set (localBackups w)
               then (if filename b \<in> filename ` set (remoteBackups w) then Both else Local)
               else Remote)"
      using entry [of k b] by auto
  qed
  have "sorted (map (\<lambda>b. - date b) (listAllBackups w))"
    unfolding L by (rule sorted_sort_key)
  then have four: "sorted_wrt (\<lambda>a b. date b \<le> date a) (listAllBackups w)"
    by (simp add: sorted_map)
  show ?thesis using one two three four by blast
qed

subsection \<open>Reconciliation\<close>

text \<open>
  C1, as the claim states it, fails when the storage mode leaves an archive out: in mode
  \<open>local\<close> a file that both archives list is reported with location \<open>local\<close>.
\<close>

theorem listAllBackups_local_mode_counterexample:
  "map filename (listLocalBackups localModeWorld) = [''backup_a.sql''] \<and>
   map filename (listS3Backups localModeWorld) = [''backup_a.sql''] \<and>
   map (\<lambda>b. (filename b, location b)) (listAllBackups localModeWorld)
     = [(''backup_a.sql'', Local)]"
  by code_simp

text \<open>
  C1, amended. \<open>listAllBackups\<close> takes the local listing when the storage mode is
  \<open>local\<close> or \<open>both\<close> and the remote listing when it is \<open>remote\<close> or \<open>both\<close> and S3 is
  configured, an archive it does not consult counting as an empty listing. For a remote
  listing without a repeated file name, the result has exactly the file names of the two
  listings, each once; an artifact is \<open>both\<close> when its name is in both listings,
  \<open>local\<close> when only in the local one and \<open>remote\<close> when only in the remote one; and
  the result is sorted by date, latest first.
\<close>

theorem listAllBackups_merge:
  assumes "distinct (map filename (remoteBackups w))"
  shows "filename ` set (listAllBackups w)
           = filename ` set (localBackups w) \<union> filename ` set (remoteBackups w) \<and>
         distinct (map filename (listAllBackups w)) \<and>
         (\<forall>b \<in> set (listAllBackups w).
            location b =
              (if filename b \<in> filename ` set (localBackups w)
               then (if filename b \<in> filename ` set (remoteBackups w) then Both else Local)
               else Remote)) \<and>
         sorted_wrt (\<lambda>a b. date b \<le> date a) (listAllBackups w)"
  using assms by (rule listAllBackups_props)

theorem listAllBackups_merge_witness:
  "distinct (map filename (remoteBackups bothWorld)) \<and>
   map filename (localBackups bothWorld) = [''backup_a.sql'', ''backup_b.dump''] \<and>
   map filename (remoteBackups bothWorld) = [''backup_b.dump'', ''backup_c.sql''] \<and>
   map (\<lambda>b. (filename b, location b, date b)) (listAllBackups bothWorld)
     = [(''backup_b.dump'', Both, 1699481600000),
        (''backup_a.sql'', Local, 1699308800000),
        (''backup_c.sql'', Remote, 1697408000000)]"
proof -
  have d: "distinct (map filename (remoteBackups bothWorld))" by code_simp
  have e: "map filename (localBackups bothWorld) = [''backup_a.sql'', ''backup_b.dump''] \<and>
   map filename (remoteBackups bothWorld) = [''backup_b.dump'', ''backup_c.sql''] \<and>
   map (\<lambda>b. (filename b, location b, date b)) (listAllBackups bothWorld)
     = [(''backup_b.dump'', Both, 1699481600000),
        (''backup_a.sql'', Local, 1699308800000),
        (''backup_c.sql'', Remote, 1697408000000)]"
    by code_simp
  show ?thesis using listAllBackups_merge [OF d] d e by simp
qed

subsection \<open>Statistics\<close>

lemma foldl_statsStep:
  "foldl statsStep s bs =
     \<lparr> total = total s,
       local = local s + length (filter (\<lambda>b. location b = Local \<or> location b = Both) bs),
       remote = remote s + length (filter (\<lambda>b. location b = Remote \<or> location b = Both) bs),
       totalSize = totalSize s + sum_list (map sizeB bs) \<rparr>"
proof (induction bs arbitrary: s)
  case Nil
  then show ?case by simp
next
  case (Cons b bs)
  show ?case
    unfolding foldl_Cons Cons.IH
    by (cases "location b") (simp_all add: statsStep_def)
qed

text \<open>
  C4. Over the merged list, \<open>total\<close> is its length, \<open>local\<close> counts the artifacts with
  location \<open>local\<close> or \<open>both\<close>, \<open>remote\<close> those with \<open>remote\<close> or \<open>both\<close> (so a \<open>both\<close>
  artifact is in both counters), and \<open>totalSize\<close> is the sum of the sizes, each artifact
  once.
\<close>

theorem getBackupStats_counts:
  "getBackupStats w =
     \<lparr> total = length (listAllBackups w),
       local = length (filter (\<lambda>b. location b = Local \<or> location b = Both) (listAllBackups w)),
       remote = length (filter (\<lambda>b. location b = Remote \<or> location b = Both) (listAllBackups w)),
       totalSize = sum_list (map sizeB (listAllBackups w)) \<rparr>"
  by (simp add: getBackupStats_def Let_def foldl_statsStep)

section \<open>Properties of the retention sweep\<close>

subsection \<open>Base names\<close>

lemma basename_no_slash: "CHR ''/'' \<notin> set (basename p)"
  by (auto simp: basename_def dest: set_takeWhileD)

lemma basename_plain:
  assumes "CHR ''/'' \<notin> set q"
  shows "basename q = q"
proof -
  have d: "dropWhile (\<lambda>c. c = CHR ''/'') (rev q) = rev q"
    using assms by (cases "rev q") (auto simp: dropWhile_eq_self_iff)
  have t: "takeWhile (\<lambda>c. c \<noteq> CHR ''/'') (rev q) = rev q"
    using assms by (auto simp: takeWhile_eq_all_conv)
  show ?thesis unfolding basename_def d t by simp
qed

lemma basename_idem: "basename (basename p) = basename p"
  by (simp add: basename_plain basename_no_slash)

subsection \<open>What the operations leave alone\<close>

lemma keyPrefix_frame [simp]:
  "keyPrefix (w\<lparr> files := f \<rparr>) = keyPrefix w" "keyPrefix (w\<lparr> objects := ob \<rparr>) = keyPrefix w"
  by (simp_all add: keyPrefix_def)

lemma objectKey_frame [simp]:
  "objectKey (w\<lparr> files := f \<rparr>) n = objectKey w n" "objectKey (w\<lparr> objects := ob \<rparr>) n = objectKey w n"
  by (simp_all add: objectKey_def)

lemma isS3Configured_frame [simp]:
  "isS3Configured (w\<lparr> files := f \<rparr>) = isS3Configured w"
  "isS3Configured (w\<lparr> objects := ob \<rparr>) = isS3Configured w"
  by (simp_all add: isS3Configured_def)

lemma objectDeletable_frame [simp]:
  "objectDeletable (w\<lparr> files := f \<rparr>) k = objectDeletable w k"
  by (simp add: objectDeletable_def)

lemma getLocalBackupPath_frame [simp]:
  "getLocalBackupPath n (w\<lparr> files := f \<rparr>) = getLocalBackupPath n w"
  "getLocalBackupPath n (w\<lparr> objects := ob \<rparr>) = getLocalBackupPath n w"
  by (simp_all add: getLocalBackupPath_def)

subsection \<open>Single deletions\<close>

lemma filter_absent: "k \<notin> fst ` set m \<Longrightarrow> filter (\<lambda>(q, x). q \<noteq> k) m = m"
  by (induction m) auto

lemma map_of_filter_neq:
  "k' \<noteq> k \<Longrightarrow> map_of (filter (\<lambda>(q, x). q \<noteq> k) m) k' = map_of m k'"
  by (induction m) auto

lemma deleteLocalBackup_closed:
  "deleteLocalBackup n w =
     (if fileRemovable w (getLocalBackupPath n w)
      then Inr (w\<lparr> files := filter (\<lambda>(q, st). q \<noteq> getLocalBackupPath n w) (files w) \<rparr>)
      else Inl LocalDeleteFailed)"
  by (simp add: deleteLocalBackup_def getLocalBackupPath_def unlink_def fileRemovable_def
           split: option.splits)

lemma deleteFromS3_configured:
  assumes "isS3Configured w" and "s3Ok w"
  shows "deleteFromS3 n w =
           (if objectDeletable w (objectKey w n)
            then Inr (w\<lparr> objects := filter (\<lambda>(k, i). k \<noteq> objectKey w n) (objects w) \<rparr>)
            else Inl RemoteDeleteFailed)"
proof (cases "map_of (objects w) (objectKey w n)")
  case None
  then have "objectKey w n \<notin> fst ` set (objects w)"
    by (simp add: map_of_eq_None_iff)
  then have "filter (\<lambda>(k, i). k \<noteq> objectKey w n) (objects w) = objects w"
    by (rule filter_absent)
  then show ?thesis
    using assms None by (simp add: deleteFromS3_def deleteObject_def objectDeletable_def)
next
  case (Some item)
  then show ?thesis
    using assms by (simp add: deleteFromS3_def deleteObject_def objectDeletable_def)
qed

text \<open>
  One pass through the \<open>try\<close>: the local deletion is attempted for location \<open>local\<close> or
  \<open>both\<close>, the remote one for \<open>remote\<close> or \<open>both\<close> and only after the local one has
  not been rejected, and the artifact is counted when neither was rejected.
\<close>

lemma deleteOld_step:
  assumes "location b \<noteq> Local \<longrightarrow> isS3Configured w \<and> s3Ok w"
  shows "deleteOld b w =
           ((location b = Remote \<or> fileRemovable w (getLocalBackupPath (filename b) w)) \<and>
            (location b = Local \<or> objectDeletable w (objectKey w (filename b))),
            w\<lparr> files :=
                 (if location b \<noteq> Remote \<and> fileRemovable w (getLocalBackupPath (filename b) w)
                  then filter (\<lambda>(q, st). q \<noteq> getLocalBackupPath (filename b) w) (files w)
                  else files w),
               objects :=
                 (if location b \<noteq> Local \<and>
                     (location b = Remote \<or> fileRemovable w (getLocalBackupPath (filename b) w)) \<and>
                     objectDeletable w (objectKey w (filename b))
                  then filter (\<lambda>(k, i). k \<noteq> objectKey w (filename b)) (objects w)
                  else objects w) \<rparr>)"
proof (cases "location b")
  case Local
  then show ?thesis
    by (simp add: deleteOld_def deleteLocalBackup_closed)
next
  case Remote
  then show ?thesis
    using assms by (simp add: deleteOld_def deleteFromS3_configured)
next
  case Both
  then show ?thesis
    using assms by (simp add: deleteOld_def deleteLocalBackup_closed deleteFromS3_configured)
qed

subsection \<open>The sweep in closed form\<close>

lemma sweep_closed:
  assumes "distinct (map filename bs)"
      and "\<forall>b\<in>set bs. location b \<noteq> Remote \<longrightarrow>
             basename (getLocalBackupPath (filename b) w) = filename b"
      and "\<forall>b\<in>set bs. location b \<noteq> Local \<longrightarrow> isS3Configured w \<and> s3Ok w"
  shows "sweep c bs (n, w) =
           (n + length (filter (\<lambda>b. isOld c b \<and>
                                  (location b = Remote \<or>
                                   fileRemovable w (getLocalBackupPath (filename b) w)) \<and>
                                  (location b = Local \<or>
                                   objectDeletable w (objectKey w (filename b)))) bs),
            w\<lparr> files :=
                 filter (\<lambda>(p, st). p \<notin> set (map (\<lambda>b. getLocalBackupPath (filename b) w)
                                              (filter (\<lambda>b. isOld c b \<and> location b \<noteq> Remote \<and>
                                                 fileRemovable w (getLocalBackupPath (filename b) w))
                                                 bs)))
                   (files w),
               objects :=
                 filter (\<lambda>(k, i). k \<notin> set (map (\<lambda>b. objectKey w (filename b))
                                             (filter (\<lambda>b. isOld c b \<and> location b \<noteq> Local \<and>
                                                (location b = Remote \<or>
                                                 fileRemovable w (getLocalBackupPath (filename b) w)) \<and>
                                                objectDeletable w (objectKey w (filename b))) bs)))
                   (objects w) \<rparr>)"
  using assms
proof (induction bs arbitrary: n w)
  case Nil
  then show ?case by simp
next
  case (Cons b bs)
  have dist: "distinct (map filename bs)"
    using Cons.prems(1) by simp
  have fresh: "\<forall>b'\<in>set bs. filename b' \<noteq> filename b"
  proof
    fix b' assume "b' \<in> set bs"
    then have "filename b' \<in> set (map filename bs)" by simp
    moreover have "filename b \<notin> set (map filename bs)" using Cons.prems(1) by simp
    ultimately show "filename b' \<noteq> filename b" by metis
  qed
  show ?case
  proof (cases "isOld c b")
    case False
    have loc: "\<forall>b\<in>set bs. location b \<noteq> Remote \<longrightarrow>
             basename (getLocalBackupPath (filename b) w) = filename b"
      using Cons.prems(2) by simp
    have rem: "\<forall>b\<in>set bs. location b \<noteq> Local \<longrightarrow> isS3Configured w \<and> s3Ok w"
      using Cons.prems(3) by simp
    show ?thesis
      using False by (simp add: Cons.IH [OF dist loc rem])
  next
    case True
    define P where "P = (\<lambda>b'::backup. getLocalBackupPath (filename b') w)"
    define K where "K = (\<lambda>b'::backup. objectKey w (filename b'))"
    define LD where "LD = (\<lambda>b'::backup. location b' = Remote \<or> fileRemovable w (P b'))"
    define RD where "RD = (\<lambda>b'::backup. location b' = Local \<or> objectDeletable w (K b'))"
    define F1 where "F1 = (if location b \<noteq> Remote \<and> fileRemovable w (P b)
                  then filter (\<lambda>(q, st). q \<noteq> P b) (files w) else files w)"
    define O1 where "O1 = (if location b \<noteq> Local \<and> LD b \<and> objectDeletable w (K b)
                  then filter (\<lambda>(k, i). k \<noteq> K b) (objects w) else objects w)"
    define w1 where "w1 = w\<lparr> files := F1, objects := O1 \<rparr>"
    define ok where "ok \<longleftrightarrow> LD b \<and> RD b"
    have step: "deleteOld b w = (ok, w1)"
      unfolding ok_def LD_def RD_def w1_def F1_def O1_def P_def K_def
      using Cons.prems(3) by (intro deleteOld_step) simp
    have P1: "getLocalBackupPath m w1 = getLocalBackupPath m w" for m
      by (simp add: w1_def)
    have K1: "objectKey w1 m = objectKey w m" for m
      by (simp add: w1_def)
    have keys: "K b' \<noteq> K b" if "b' \<in> set bs" for b'
      using fresh that by (simp add: K_def objectKey_def)
    have del1: "objectDeletable w1 (K b') = objectDeletable w (K b')" if "b' \<in> set bs" for b'
      using keys [OF that]
      by (simp add: objectDeletable_def w1_def O1_def map_of_filter_neq)
    have paths: "P b' \<noteq> P b" if "b' \<in> set bs" "location b' \<noteq> Remote" "location b \<noteq> Remote" for b'
    proof
      assume "P b' = P b"
      then have "basename (P b') = basename (P b)" by simp
      moreover have "basename (P b') = filename b'"
        using Cons.prems(2) that by (simp add: P_def)
      moreover have "basename (P b) = filename b"
        using Cons.prems(2) that by (simp add: P_def)
      ultimately show False using fresh that by simp
    qed
    have rm1: "fileRemovable w1 (P b') = fileRemovable w (P b')"
      if "b' \<in> set bs" "location b' \<noteq> Remote" for b'
    proof (cases "location b \<noteq> Remote \<and> fileRemovable w (P b)")
      case True
      then have ne: "P b' \<noteq> P b" using paths that by simp
      have "F1 = filter (\<lambda>(q, st). q \<noteq> P b) (files w)"
        using True by (simp add: F1_def)
      then have "map_of (files w1) (P b') = map_of (files w) (P b')"
        using ne by (simp add: w1_def map_of_filter_neq)
      then show ?thesis by (simp add: fileRemovable_def)
    next
      case False
      then have "F1 = files w" by (auto simp: F1_def)
      then show ?thesis by (simp add: fileRemovable_def w1_def)
    qed
    have loc1: "\<forall>b'\<in>set bs. location b' \<noteq> Remote \<longrightarrow>
             basename (getLocalBackupPath (filename b') w1) = filename b'"
      using Cons.prems(2) by (simp add: P1)
    have rem1: "\<forall>b'\<in>set bs. location b' \<noteq> Local \<longrightarrow> isS3Configured w1 \<and> s3Ok w1"
      using Cons.prems(3) by (simp add: w1_def)
    have sw: "sweep c (b # bs) (n, w) = sweep c bs (if ok then n + 1 else n, w1)"
      using True step by simp
    have cntf: "filter (\<lambda>b'. isOld c b' \<and>
                     (location b' = Remote \<or> fileRemovable w1 (getLocalBackupPath (filename b') w)) \<and>
                     (location b' = Local \<or> objectDeletable w1 (objectKey w (filename b')))) bs
               = filter (\<lambda>b'. isOld c b' \<and> LD b' \<and> RD b') bs"
      using del1 rm1 by (intro filter_cong) (auto simp: K_def P_def LD_def RD_def)
    have pathf: "filter (\<lambda>b'. isOld c b' \<and> location b' \<noteq> Remote \<and>
                     fileRemovable w1 (getLocalBackupPath (filename b') w)) bs
               = filter (\<lambda>b'. isOld c b' \<and> location b' \<noteq> Remote \<and> fileRemovable w (P b')) bs"
      using rm1 by (intro filter_cong) (auto simp: P_def)
    have keyf: "filter (\<lambda>b'. isOld c b' \<and> location b' \<noteq> Local \<and>
                     (location b' = Remote \<or> fileRemovable w1 (getLocalBackupPath (filename b') w)) \<and>
                     objectDeletable w1 (objectKey w (filename b'))) bs
               = filter (\<lambda>b'. isOld c b' \<and> location b' \<noteq> Local \<and> LD b' \<and>
                     objectDeletable w (K b')) bs"
      using del1 rm1 by (intro filter_cong) (auto simp: K_def P_def LD_def)
    have ih: "sweep c bs (if ok then n + 1 else n, w1) =
           ((if ok then n + 1 else n) +
              length (filter (\<lambda>b'. isOld c b' \<and> LD b' \<and> RD b') bs),
            w\<lparr> files := filter (\<lambda>(p, st). p \<notin> set (map P
                              (filter (\<lambda>b'. isOld c b' \<and> location b' \<noteq> Remote \<and>
                                 fileRemovable w (P b')) bs))) F1,
               objects := filter (\<lambda>(k, i). k \<notin> set (map K
                              (filter (\<lambda>b'. isOld c b' \<and> location b' \<noteq> Local \<and> LD b' \<and>
                                 objectDeletable w (K b')) bs))) O1 \<rparr>)"
      unfolding Cons.IH [OF dist loc1 rem1] P1 K1 cntf pathf keyf
      by (simp add: w1_def P_def K_def)
    have ff: "filter (\<lambda>(p, st). p \<notin> set (map P
                  (filter (\<lambda>b'. isOld c b' \<and> location b' \<noteq> Remote \<and>
                     fileRemovable w (P b')) bs))) F1
            = filter (\<lambda>(p, st). p \<notin> set (map P
                  (filter (\<lambda>b'. isOld c b' \<and> location b' \<noteq> Remote \<and>
                     fileRemovable w (P b')) (b # bs)))) (files w)"
      using True by (auto simp: F1_def intro: filter_cong)
    have oo: "filter (\<lambda>(k, i). k \<notin> set (map K
                  (filter (\<lambda>b'. isOld c b' \<and> location b' \<noteq> Local \<and> LD b' \<and>
                     objectDeletable w (K b')) bs))) O1
            = filter (\<lambda>(k, i). k \<notin> set (map K
                  (filter (\<lambda>b'. isOld c b' \<and> location b' \<noteq> Local \<and> LD b' \<and>
                     objectDeletable w (K b')) (b # bs)))) (objects w)"
      using True by (auto simp: O1_def intro: filter_cong)
    have cnt: "(if ok then n + 1 else n) +
              length (filter (\<lambda>b'. isOld c b' \<and> LD b' \<and> RD b') bs)
            = n + length (filter (\<lambda>b'. isOld c b' \<and> LD b' \<and> RD b') (b # bs))"
      using True by (simp add: ok_def)
    show ?thesis
      unfolding sw ih ff oo cnt by (simp add: P_def K_def LD_def RD_def)
  qed
qed

subsection \<open>What the listings contain\<close>

lemma readdir_listed:
  assumes "n \<in> set (readdir dir fs)"
  shows "path_join dir n \<in> fst ` set fs \<and> basename (path_join dir n) = n \<and> basename n = n"
proof -
  from assms obtain p st where p: "(p, st) \<in> set fs" "path_join dir (basename p) = p"
    and n: "n = basename p"
    by (auto simp: readdir_def)
  have "p \<in> fst ` set fs" using p(1) by force
  then show ?thesis using p(2) n by (simp add: basename_idem)
qed

lemma collectLocal_names:
  "collectLocal dir fs names = Some bs \<Longrightarrow> b \<in> set bs \<Longrightarrow> filename b \<in> set names"
proof (induction names arbitrary: bs)
  case Nil
  then show ?case by simp
next
  case (Cons f rest)
  then show ?case
    by (fastforce split: if_splits option.splits)
qed

lemma listLocalBackups_listed:
  assumes "b \<in> set (listLocalBackups w)"
  shows "getLocalBackupPath (filename b) w \<in> fst ` set (files w) \<and>
         basename (getLocalBackupPath (filename b) w) = filename b"
proof (cases "collectLocal (localPath (backupCfg w)) (files w)
                (readdir (localPath (backupCfg w)) (files w))")
  case None
  then show ?thesis
    using assms by (simp add: listLocalBackups_def split: sum.splits)
next
  case (Some bs)
  then have "b \<in> set bs"
    using assms by (simp add: listLocalBackups_def split: sum.splits)
  then have "filename b \<in> set (readdir (localPath (backupCfg w)) (files w))"
    using collectLocal_names [OF Some] by simp
  from readdir_listed [OF this] show ?thesis
    by (simp add: getLocalBackupPath_def)
qed

lemma listS3Backups_listed:
  assumes "b \<in> set (listS3Backups w)"
  shows "isS3Configured w \<and> s3Ok w \<and>
         (\<exists>key item. (key, item) \<in> set (objects w) \<and>
            startsWith key (keyPrefix w @ ''backup_'') \<and> filename b = basename key)"
proof -
  have c: "isS3Configured w \<and> s3Ok w"
    using assms by (auto simp: listS3Backups_def split: if_splits)
  then obtain key item where
    k: "(key, item) \<in> set (take (maxKeys w)
           (filter (\<lambda>(key, item). startsWith key (keyPrefix w @ ''backup_'')) (objects w)))"
       "filename b = basename key"
    using assms by (auto simp: listS3Backups_def)
  from in_set_takeD [OF k(1)] have "(key, item) \<in> set (objects w)"
      "startsWith key (keyPrefix w @ ''backup_'')"
    by auto
  then show ?thesis using c k(2) by blast
qed

lemma flatKeys_key:
  assumes "flatKeys w" and "(key, item) \<in> set (objects w)"
      and "startsWith key (keyPrefix w @ ''backup_'')"
  shows "objectKey w (basename key) = key"
  using assms by (auto simp: flatKeys_def list_all_iff)

lemma listS3Backups_key:
  assumes "flatKeys w" and "b \<in> set (listS3Backups w)"
  shows "objectKey w (filename b) \<in> fst ` set (objects w)"
proof -
  from listS3Backups_listed [OF assms(2)] obtain key item where
    k: "(key, item) \<in> set (objects w)" "startsWith key (keyPrefix w @ ''backup_'')"
       "filename b = basename key"
    by blast
  have "objectKey w (filename b) = key" using flatKeys_key [OF assms(1) k(1,2)] k(3) by simp
  moreover have "key \<in> fst ` set (objects w)" using k(1) by force
  ultimately show ?thesis by simp
qed

lemma listS3Backups_distinct:
  assumes "flatKeys w" and "distinct (map fst (objects w))"
  shows "distinct (map filename (listS3Backups w))"
proof (cases "isS3Configured w \<and> s3Ok w")
  case False
  then show ?thesis by (auto simp: listS3Backups_def)
next
  case True
  define listed where
    "listed = take (maxKeys w)
       (filter (\<lambda>(key, item). startsWith key (keyPrefix w @ ''backup_'')) (objects w))"
  have names: "map filename (listS3Backups w) = map basename (map fst listed)"
    using True by (simp add: listS3Backups_def listed_def case_prod_unfold comp_def)
  have "distinct (map fst
          (filter (\<lambda>(key, item). startsWith key (keyPrefix w @ ''backup_'')) (objects w)))"
    using assms(2) by (rule distinct_map_filter)
  then have d: "distinct (map fst listed)"
    unfolding listed_def take_map [symmetric] by (rule distinct_take)
  have inj: "inj_on basename (set (map fst listed))"
  proof (rule inj_onI)
    fix x y assume x: "x \<in> set (map fst listed)" and y: "y \<in> set (map fst listed)"
      and e: "basename x = basename y"
    from x obtain ix where "(x, ix) \<in> set (objects w)" "startsWith x (keyPrefix w @ ''backup_'')"
      by (auto simp: listed_def dest!: in_set_takeD)
    then have "objectKey w (basename x) = x" using flatKeys_key [OF assms(1)] by blast
    moreover from y obtain iy where "(y, iy) \<in> set (objects w)" "startsWith y (keyPrefix w @ ''backup_'')"
      by (auto simp: listed_def dest!: in_set_takeD)
    then have "objectKey w (basename y) = y" using flatKeys_key [OF assms(1)] by blast
    ultimately show "x = y" using e by metis
  qed
  show ?thesis unfolding names using d inj by (simp only: distinct_map simp_thms)
qed

lemma remoteBackups_distinct:
  assumes "flatKeys w" and "distinct (map fst (objects w))"
  shows "distinct (map filename (remoteBackups w))"
  using listS3Backups_distinct [OF assms] by (simp add: remoteBackups_def)

lemma listAllBackups_local_part:
  assumes "distinct (map filename (remoteBackups w))"
      and "b \<in> set (listAllBackups w)" and "location b \<noteq> Remote"
  shows "getLocalBackupPath (filename b) w \<in> fst ` set (files w) \<and>
         basename (getLocalBackupPath (filename b) w) = filename b"
proof -
  have "filename b \<in> filename ` set (localBackups w)"
    using listAllBackups_props [OF assms(1)] assms(2,3) by (metis location.distinct(1,3))
  then obtain l where l: "l \<in> set (localBackups w)" "filename l = filename b" by force
  then have "l \<in> set (listLocalBackups w)"
    by (auto simp: localBackups_def split: if_splits)
  from listLocalBackups_listed [OF this] show ?thesis using l(2) by simp
qed

lemma listAllBackups_remote_part:
  assumes "distinct (map filename (remoteBackups w))"
      and "b \<in> set (listAllBackups w)" and "location b \<noteq> Local"
  shows "\<exists>r \<in> set (listS3Backups w). filename r = filename b"
proof -
  have u: "filename b \<in> filename ` set (localBackups w) \<union> filename ` set (remoteBackups w)"
    using listAllBackups_props [OF assms(1)] assms(2) by blast
  have loc: "location b =
              (if filename b \<in> filename ` set (localBackups w)
               then (if filename b \<in> filename ` set (remoteBackups w) then Both else Local)
               else Remote)"
    using listAllBackups_props [OF assms(1)] assms(2) by blast
  have "filename b \<in> filename ` set (remoteBackups w)"
  proof (cases "filename b \<in> filename ` set (localBackups w)")
    case True
    then show ?thesis using loc assms(3) by (auto split: if_splits)
  next
    case False
    then show ?thesis using u by blast
  qed
  then obtain r where "r \<in> set (remoteBackups w)" "filename r = filename b" by force
  then show ?thesis by (auto simp: remoteBackups_def split: if_splits)
qed

subsection \<open>The listings in closed form\<close>













subsection \<open>Where a merged artifact comes from\<close>




lemma listAllBackups_location:
  assumes "distinct (map filename (remoteBackups w))" and "b \<in> set (listAllBackups w)"
  shows "location b =
              (if filename b \<in> filename ` set (localBackups w)
               then (if filename b \<in> filename ` set (remoteBackups w) then Both else Local)
               else Remote)"
  using listAllBackups_props [OF assms(1)] assms(2) by blast


subsection \<open>The sweep over the merged listing\<close>

text \<open>
  With seven retention days the cutoff is seven days before \<open>now\<close>, moved by the
  difference between the zone's offset now and its offset for the local time a week ago.
\<close>

lemma retention_boundary:
  assumes "\<bar>tza now True - tza (localTime tza now - 7 * msPerDay) False\<bar> < msPerDay"
      and "8 * msPerDay \<le> now" and "now \<le> 8640000000000000"
  shows "isOld (retentionDate tza now (Num 7)) b \<longleftrightarrow>
           date b < now - 7 * msPerDay
                      + (tza now True - tza (localTime tza now - 7 * msPerDay) False)"
proof -
  define shift where "shift = tza now True - tza (localTime tza now - 7 * msPerDay) False"
  have c: "utcTime tza (localTime tza now - 7 * msPerDay) = now - 7 * msPerDay + shift"
    by (simp add: utcTime_def localTime_def shift_def)
  have "\<bar>shift\<bar> < 86400000" using assms(1) by (simp add: shift_def msPerDay_def)
  then have "\<bar>now - 7 * msPerDay + shift\<bar> \<le> 8640000000000000"
    using assms(2,3) by (simp add: msPerDay_def abs_le_iff)
  then show ?thesis
    unfolding shift_def [symmetric]
    by (simp add: isOld_def retentionDate_def timeClip_def c)
qed

lemma sweep_listing_closed:
  assumes dr: "distinct (map filename (remoteBackups w))"
  shows "applyRetentionPolicy tza now w =
           (length (filter (\<lambda>b. isOld (retentionDate tza now (retentionDays (backupCfg w))) b \<and>
                                  (location b = Remote \<or>
                                   fileRemovable w (getLocalBackupPath (filename b) w)) \<and>
                                  (location b = Local \<or>
                                   objectDeletable w (objectKey w (filename b))))
                      (listAllBackups w)),
            w\<lparr> files :=
                 filter (\<lambda>(p, st). p \<notin> set (map (\<lambda>b. getLocalBackupPath (filename b) w)
                           (filter (\<lambda>b. isOld (retentionDate tza now (retentionDays (backupCfg w))) b \<and>
                                        location b \<noteq> Remote \<and>
                                        fileRemovable w (getLocalBackupPath (filename b) w))
                              (listAllBackups w))))
                   (files w),
               objects :=
                 filter (\<lambda>(k, i). k \<notin> set (map (\<lambda>b. objectKey w (filename b))
                           (filter (\<lambda>b. isOld (retentionDate tza now (retentionDays (backupCfg w))) b \<and>
                                        location b \<noteq> Local \<and>
                                        (location b = Remote \<or>
                                         fileRemovable w (getLocalBackupPath (filename b) w)) \<and>
                                        objectDeletable w (objectKey w (filename b)))
                              (listAllBackups w))))
                   (objects w) \<rparr>)"
proof -
  have d: "distinct (map filename (listAllBackups w))"
    using listAllBackups_props [OF dr] by blast
  have loc: "\<forall>b\<in>set (listAllBackups w). location b \<noteq> Remote \<longrightarrow>
             basename (getLocalBackupPath (filename b) w) = filename b"
    using listAllBackups_local_part [OF dr] by blast
  have rem: "\<forall>b\<in>set (listAllBackups w). location b \<noteq> Local \<longrightarrow> isS3Configured w \<and> s3Ok w"
    using listAllBackups_remote_part [OF dr] listS3Backups_listed by blast
  show ?thesis
    unfolding applyRetentionPolicy_def sweep_closed [OF d loc rem] by simp
qed

lemma applyRetentionPolicy_closed:
  assumes "distinct (map fst (objects w))" and "flatKeys w"
  shows "applyRetentionPolicy tza now w =
           (length (filter (\<lambda>b. isOld (retentionDate tza now (retentionDays (backupCfg w))) b \<and>
                                  (location b = Remote \<or>
                                   fileRemovable w (getLocalBackupPath (filename b) w)) \<and>
                                  (location b = Local \<or>
                                   objectDeletable w (objectKey w (filename b))))
                      (listAllBackups w)),
            w\<lparr> files :=
                 filter (\<lambda>(p, st). p \<notin> set (map (\<lambda>b. getLocalBackupPath (filename b) w)
                           (filter (\<lambda>b. isOld (retentionDate tza now (retentionDays (backupCfg w))) b \<and>
                                        location b \<noteq> Remote \<and>
                                        fileRemovable w (getLocalBackupPath (filename b) w))
                              (listAllBackups w))))
                   (files w),
               objects :=
                 filter (\<lambda>(k, i). k \<notin> set (map (\<lambda>b. objectKey w (filename b))
                           (filter (\<lambda>b. isOld (retentionDate tza now (retentionDays (backupCfg w))) b \<and>
                                        location b \<noteq> Local \<and>
                                        (location b = Remote \<or>
                                         fileRemovable w (getLocalBackupPath (filename b) w)) \<and>
                                        objectDeletable w (objectKey w (filename b)))
                              (listAllBackups w))))
                   (objects w) \<rparr>)"
  using remoteBackups_distinct [OF assms(2,1)] by (rule sweep_listing_closed)

text \<open>
  C2, as the claim states it, fails when a deletion is rejected. In \<open>lockedWorld\<close> two
  artifacts are older than the cutoff: \<open>backup_a.sql\<close>, in both archives, loses its
  local file, keeps its object, which the service will not delete, and is not counted;
  \<open>backup_d.sql\<close>, which the file system will not unlink, stays and is not counted.
\<close>

theorem applyRetentionPolicy_locked_counterexample:
  "map (\<lambda>b. (filename b, location b)) (listAllBackups lockedWorld)
     = [(''backup_a.sql'', Both), (''backup_d.sql'', Local)] \<and>
   length (filter (isOld (retentionDate utc 1700000000000 (retentionDays (backupCfg lockedWorld))))
             (listAllBackups lockedWorld)) = 2 \<and>
   fst (applyRetentionPolicy utc 1700000000000 lockedWorld) = 0 \<and>
   map fst (files (snd (applyRetentionPolicy utc 1700000000000 lockedWorld)))
     = [''backups/backup_d.sql''] \<and>
   objects (snd (applyRetentionPolicy utc 1700000000000 lockedWorld)) = objects lockedWorld"
  by code_simp

text \<open>
  C2, amended. With the cutoff \<open>retentionDate tza now retentionDays\<close>, the sweep handles the
  artifacts of the merged listing dated strictly before the cutoff, one after the other.
  For an artifact of location \<open>local\<close> or \<open>both\<close> it unlinks the local file; unless that
  was rejected, it then deletes the object of an artifact of location \<open>remote\<close> or
  \<open>both\<close>. \<open>deletedCount\<close> is the number of these artifacts none of whose deletions was
  rejected, each counted once, so it is the number of all of them when nothing is
  rejected. The files that are gone afterwards are those whose unlink was accepted, the
  objects those whose deletion was attempted and accepted; the paths and keys are those of
  listed files and objects. With \<open>retentionDays = 7\<close> an artifact dated eight days before
  \<open>now\<close> is before the cutoff and one dated six days before is not, in a time zone whose
  offset now and offset for the local time a week ago differ by less than a day. This is
  stated for a bucket with distinct keys in which no key under the search prefix has a
  slash after the key prefix.
\<close>

theorem applyRetentionPolicy_effect:
  assumes "distinct (map fst (objects w))" and "flatKeys w"
  shows "let cutoff = retentionDate tza now (retentionDays (backupCfg w));
             old = filter (isOld cutoff) (listAllBackups w);
             path = (\<lambda>b. getLocalBackupPath (filename b) w);
             key = (\<lambda>b. objectKey w (filename b));
             localDone = (\<lambda>b. location b = Remote \<or> fileRemovable w (path b));
             remoteDone = (\<lambda>b. location b = Local \<or> objectDeletable w (key b));
             r = applyRetentionPolicy tza now w
         in fst r = length (filter (\<lambda>b. localDone b \<and> remoteDone b) old) \<and>
            ((\<forall>b\<in>set old. localDone b \<and> remoteDone b) \<longrightarrow> fst r = length old) \<and>
            files (snd r) =
              filter (\<lambda>(p, st). p \<notin> set (map path
                         (filter (\<lambda>b. location b \<noteq> Remote \<and> localDone b) old)))
                (files w) \<and>
            objects (snd r) =
              filter (\<lambda>(k, i). k \<notin> set (map key
                         (filter (\<lambda>b. location b \<noteq> Local \<and> localDone b \<and> remoteDone b) old)))
                (objects w) \<and>
            (\<forall>b\<in>set old. location b \<noteq> Remote \<longrightarrow> path b \<in> fst ` set (files w)) \<and>
            (\<forall>b\<in>set old. location b \<noteq> Local \<longrightarrow> key b \<in> fst ` set (objects w)) \<and>
            (retentionDays (backupCfg w) = Num 7 \<and>
             \<bar>tza now True - tza (localTime tza now - 7 * msPerDay) False\<bar> < msPerDay \<and>
             8 * msPerDay \<le> now \<and> now \<le> 8640000000000000 \<longrightarrow>
               (\<forall>b. (date b = now - 8 * msPerDay \<longrightarrow> isOld cutoff b) \<and>
                    (date b = now - 6 * msPerDay \<longrightarrow> \<not> isOld cutoff b)))"
proof -
  define cutoff where "cutoff = retentionDate tza now (retentionDays (backupCfg w))"
  define old where "old = filter (isOld cutoff) (listAllBackups w)"
  define localDone where
    "localDone = (\<lambda>b::backup. location b = Remote \<or>
                    fileRemovable w (getLocalBackupPath (filename b) w))"
  define remoteDone where
    "remoteDone = (\<lambda>b::backup. location b = Local \<or>
                     objectDeletable w (objectKey w (filename b)))"
  define r where "r = applyRetentionPolicy tza now w"
  have dr: "distinct (map filename (remoteBackups w))"
    using remoteBackups_distinct [OF assms(2,1)] .
  have r: "r = (length (filter (\<lambda>b. localDone b \<and> remoteDone b) old),
                w\<lparr> files := filter (\<lambda>(p, st). p \<notin> set (map (\<lambda>b. getLocalBackupPath (filename b) w)
                                  (filter (\<lambda>b. location b \<noteq> Remote \<and> localDone b) old))) (files w),
                   objects := filter (\<lambda>(k, i). k \<notin> set (map (\<lambda>b. objectKey w (filename b))
                                  (filter (\<lambda>b. location b \<noteq> Local \<and> localDone b \<and> remoteDone b)
                                     old))) (objects w) \<rparr>)"
    unfolding r_def applyRetentionPolicy_closed [OF assms] old_def cutoff_def localDone_def
      remoteDone_def
    by (simp cong: conj_cong)
  have c1: "fst r = length (filter (\<lambda>b. localDone b \<and> remoteDone b) old)" by (simp add: r)
  have c2: "(\<forall>b\<in>set old. localDone b \<and> remoteDone b) \<longrightarrow> fst r = length old"
    by (simp add: c1)
  have c3: "files (snd r) = filter (\<lambda>(p, st). p \<notin> set (map (\<lambda>b. getLocalBackupPath (filename b) w)
                                  (filter (\<lambda>b. location b \<noteq> Remote \<and> localDone b) old))) (files w)"
    by (simp add: r)
  have c4: "objects (snd r) = filter (\<lambda>(k, i). k \<notin> set (map (\<lambda>b. objectKey w (filename b))
                                  (filter (\<lambda>b. location b \<noteq> Local \<and> localDone b \<and> remoteDone b)
                                     old))) (objects w)"
    by (simp add: r)
  have c5: "\<forall>b\<in>set old. location b \<noteq> Remote \<longrightarrow>
              getLocalBackupPath (filename b) w \<in> fst ` set (files w)"
    using listAllBackups_local_part [OF dr] by (simp add: old_def)
  have c6: "\<forall>b\<in>set old. location b \<noteq> Local \<longrightarrow> objectKey w (filename b) \<in> fst ` set (objects w)"
  proof (intro ballI impI)
    fix b assume "b \<in> set old" "location b \<noteq> Local"
    then obtain r' where "r' \<in> set (listS3Backups w)" "filename r' = filename b"
      using listAllBackups_remote_part [OF dr] by (auto simp: old_def)
    then show "objectKey w (filename b) \<in> fst ` set (objects w)"
      using listS3Backups_key [OF assms(2)] by metis
  qed
  have c7: "retentionDays (backupCfg w) = Num 7 \<and>
             \<bar>tza now True - tza (localTime tza now - 7 * msPerDay) False\<bar> < msPerDay \<and>
             8 * msPerDay \<le> now \<and> now \<le> 8640000000000000 \<longrightarrow>
               (\<forall>b. (date b = now - 8 * msPerDay \<longrightarrow> isOld cutoff b) \<and>
                    (date b = now - 6 * msPerDay \<longrightarrow> \<not> isOld cutoff b))"
  proof (intro impI)
    assume h: "retentionDays (backupCfg w) = Num 7 \<and>
             \<bar>tza now True - tza (localTime tza now - 7 * msPerDay) False\<bar> < msPerDay \<and>
             8 * msPerDay \<le> now \<and> now \<le> 8640000000000000"
    define shift where "shift = tza now True - tza (localTime tza now - 7 * msPerDay) False"
    have rb: "isOld cutoff b \<longleftrightarrow> date b < now - 7 * msPerDay + shift" for b
      unfolding shift_def cutoff_def using h retention_boundary [of tza now b] by simp
    have "\<bar>shift\<bar> < 86400000" using h by (simp add: shift_def msPerDay_def)
    then show "\<forall>b. (date b = now - 8 * msPerDay \<longrightarrow> isOld cutoff b) \<and>
                    (date b = now - 6 * msPerDay \<longrightarrow> \<not> isOld cutoff b)"
      by (auto simp: rb msPerDay_def)
  qed
  show ?thesis
    unfolding Let_def cutoff_def [symmetric] old_def [symmetric] r_def [symmetric]
    using c1 c2 c3 c4 c5 c6 c7 unfolding localDone_def remoteDone_def by blast
qed

theorem applyRetentionPolicy_effect_witness:
  "distinct (map fst (objects bothWorld)) \<and> flatKeys bothWorld \<and>
   retentionDays (backupCfg bothWorld) = Num 7 \<and>
   fst (applyRetentionPolicy utc 1700000000000 bothWorld) = 2 \<and>
   map fst (files (snd (applyRetentionPolicy utc 1700000000000 bothWorld)))
     = [''backups/backup_b.dump'', ''backups/notes.txt''] \<and>
   map fst (objects (snd (applyRetentionPolicy utc 1700000000000 bothWorld)))
     = [''nightly/backup_b.dump'', ''nightly/readme.txt''] \<and>
   distinct (map fst (objects lockedWorld)) \<and> flatKeys lockedWorld \<and>
   fst (applyRetentionPolicy utc 1700000000000 lockedWorld) = 0"
proof -
  have d: "distinct (map fst (objects bothWorld))" by code_simp
  have f: "flatKeys bothWorld" by code_simp
  have e: "retentionDays (backupCfg bothWorld) = Num 7 \<and>
   fst (applyRetentionPolicy utc 1700000000000 bothWorld) = 2 \<and>
   map fst (files (snd (applyRetentionPolicy utc 1700000000000 bothWorld)))
     = [''backups/backup_b.dump'', ''backups/notes.txt''] \<and>
   map fst (objects (snd (applyRetentionPolicy utc 1700000000000 bothWorld)))
     = [''nightly/backup_b.dump'', ''nightly/readme.txt'']"
    by code_simp
  have d': "distinct (map fst (objects lockedWorld))" by code_simp
  have f': "flatKeys lockedWorld" by code_simp
  have e': "fst (applyRetentionPolicy utc 1700000000000 lockedWorld) = 0" by code_simp
  show ?thesis
    using applyRetentionPolicy_effect [OF d f, of utc 1700000000000]
          applyRetentionPolicy_effect [OF d' f', of utc 1700000000000] d f e d' f' e'
    by simp
qed

subsection \<open>A second sweep\<close>






lemma rejecting_frame [simp]:
  "backupCfg (rejecting F G w) = backupCfg w" "s3Cfg (rejecting F G w) = s3Cfg w"
  "dirOk (rejecting F G w) = dirOk w" "s3Ok (rejecting F G w) = s3Ok w"
  "maxKeys (rejecting F G w) = maxKeys w"
  by (simp_all add: rejecting_def)


lemma rejecting_keyPrefix [simp]: "keyPrefix (rejecting F G w) = keyPrefix w"
  by (simp add: keyPrefix_def)

lemma rejecting_objectKey [simp]: "objectKey (rejecting F G w) n = objectKey w n"
  by (simp add: objectKey_def)

lemma rejecting_path [simp]: "getLocalBackupPath n (rejecting F G w) = getLocalBackupPath n w"
  by (simp add: getLocalBackupPath_def)

lemma rejecting_isS3Configured [simp]: "isS3Configured (rejecting F G w) = isS3Configured w"
  by (simp add: isS3Configured_def)













text \<open>
  The second sweep counts again what is accepted only then: run on \<open>lockedWorld\<close>, the
  first sweep returns 0 and leaves the object it could not delete; once the service
  accepts the deletion, a sweep at the same clock reading returns 1.
\<close>

theorem second_sweep_after_unlock:
  "fst (applyRetentionPolicy utc 1700000000000 lockedWorld) = 0 \<and>
   map fst (objects (snd (applyRetentionPolicy utc 1700000000000 lockedWorld)))
     = [''nightly/backup_a.sql''] \<and>
   fst (applyRetentionPolicy utc 1700000000000
          ((snd (applyRetentionPolicy utc 1700000000000 lockedWorld))
             \<lparr> objects := map (\<lambda>(k, i). (k, i\<lparr> deletable := True \<rparr>)) (objects lockedWorld) \<rparr>))
     = 1"
  by code_simp

subsection \<open>The sweep and the storage mode\<close>

lemma filter_none: "(\<And>x. x \<in> set xs \<Longrightarrow> \<not> P x) \<Longrightarrow> filter P xs = []"
  by (induction xs) auto

lemma filter_keys_empty: "filter (\<lambda>(k, v). k \<notin> set []) m = m"
  by (induction m) auto

lemma local_mode_listing:
  assumes "storage (backupCfg w) = ''local''" and "b \<in> set (listAllBackups w)"
  shows "location b = Local"
proof -
  have r: "remoteBackups w = []" using assms(1) by (simp add: remoteBackups_def)
  then have dr: "distinct (map filename (remoteBackups w))" by simp
  have "filename b \<in> filename ` set (localBackups w) \<union> filename ` set (remoteBackups w)"
    using listAllBackups_props [OF dr] assms(2) by blast
  then show ?thesis using listAllBackups_location [OF dr assms(2)] r by simp
qed

lemma local_mode_sweep:
  assumes "storage (backupCfg w) = ''local''"
  shows "objects (snd (applyRetentionPolicy tza now w)) = objects w"
proof -
  have "remoteBackups w = []" using assms(1) by (simp add: remoteBackups_def)
  then have dr: "distinct (map filename (remoteBackups w))" by simp
  have "filter (\<lambda>b. isOld (retentionDate tza now (retentionDays (backupCfg w))) b \<and>
                     location b \<noteq> Local \<and>
                     (location b = Remote \<or> fileRemovable w (getLocalBackupPath (filename b) w)) \<and>
                     objectDeletable w (objectKey w (filename b)))
          (listAllBackups w) = []"
    using local_mode_listing [OF assms] by (intro filter_none) simp
  then show ?thesis
    unfolding sweep_listing_closed [OF dr] by (simp add: filter_keys_empty)
qed

lemma remote_mode_listing:
  assumes "storage (backupCfg w) \<noteq> ''local''" and "storage (backupCfg w) \<noteq> ''both''"
      and "distinct (map filename (remoteBackups w))" and "b \<in> set (listAllBackups w)"
  shows "location b = Remote"
proof -
  have "localBackups w = []" using assms(1,2) by (simp add: localBackups_def)
  then show ?thesis using listAllBackups_location [OF assms(3,4)] by simp
qed

lemma remote_mode_sweep:
  assumes "storage (backupCfg w) \<noteq> ''local''" and "storage (backupCfg w) \<noteq> ''both''"
      and "distinct (map filename (remoteBackups w))"
  shows "files (snd (applyRetentionPolicy tza now w)) = files w"
proof -
  have "filter (\<lambda>b. isOld (retentionDate tza now (retentionDays (backupCfg w))) b \<and>
                     location b \<noteq> Remote \<and>
                     fileRemovable w (getLocalBackupPath (filename b) w)) (listAllBackups w) = []"
    using remote_mode_listing [OF assms] by (intro filter_none) simp
  then show ?thesis
    unfolding sweep_listing_closed [OF assms(3)] by (simp add: filter_keys_empty)
qed

subsection \<open>A listing cut off by the service\<close>

text \<open>
  The listing is the first response of the service and the sweep asks for no more. In
  \<open>pagedWorld\<close> three expired objects lie behind a service that answers two keys at a
  time: the first sweep deletes two and the second, run at the same clock reading, finds
  and deletes the third.
\<close>

theorem second_sweep_truncated_listing:
  "distinct (map fst (objects pagedWorld)) \<and> flatKeys pagedWorld \<and> \<not> onePage pagedWorld \<and>
   map filename (listAllBackups pagedWorld) = [''backup_a.sql'', ''backup_b.sql''] \<and>
   fst (applyRetentionPolicy utc 1700000000000 pagedWorld) = 2 \<and>
   map fst (objects (snd (applyRetentionPolicy utc 1700000000000 pagedWorld)))
     = [''nightly/backup_c.sql''] \<and>
   fst (applyRetentionPolicy utc 1700000000000
          (snd (applyRetentionPolicy utc 1700000000000 pagedWorld))) = 1"
  by code_simp

subsection \<open>Keys with a slash after the prefix\<close>

text \<open>
  The listing names an object by the base name of its key and the deletion rebuilds the
  key from that name. Run twice on \<open>nestedKeyWorld\<close> with the same clock reading, the
  sweep returns 1 both times: the deletion addresses the key \<open>db.sql\<close>, which names no
  object, and the service accepts it.
\<close>

theorem second_sweep_nested_key:
  "fst (applyRetentionPolicy utc 1700000000000 nestedKeyWorld) = 1 \<and>
   objects (snd (applyRetentionPolicy utc 1700000000000 nestedKeyWorld)) = objects nestedKeyWorld \<and>
   fst (applyRetentionPolicy utc 1700000000000
          (snd (applyRetentionPolicy utc 1700000000000 nestedKeyWorld))) = 1"
  by code_simp

text \<open>
  C5. In \<open>sameBasenameWorld\<close> the storage mode is \<open>remote\<close>; the two objects of base
  name \<open>db.sql\<close> make the merged listing report one artifact of location \<open>both\<close>, and the
  sweep unlinks the local file \<open>backups/db.sql\<close>.
\<close>

theorem sweep_remote_mode_unlinks_local:
  "storage (backupCfg sameBasenameWorld) = ''remote'' \<and>
   map (\<lambda>b. (filename b, location b)) (listAllBackups sameBasenameWorld) = [(''db.sql'', Both)] \<and>
   map fst (files sameBasenameWorld) = [''backups/db.sql''] \<and>
   fst (applyRetentionPolicy utc 1700000000000 sameBasenameWorld) = 1 \<and>
   files (snd (applyRetentionPolicy utc 1700000000000 sameBasenameWorld)) = []"
  by code_simp

section \<open>Properties of creation\<close>

lemma mapSet_keys: "fst ` set (mapSet k v m) = insert k (fst ` set m)"
proof -
  have "set (map fst (mapSet k v m)) = insert k (set (map fst m))"
    unfolding map_fst_mapSet by auto
  then show ?thesis by simp
qed











section \<open>Properties of path resolution\<close>

lemma splitOn_plain: "c \<notin> set s \<Longrightarrow> splitOn c s = [s]"
  by (induction s) auto

lemma splitOn_nonempty: "splitOn c s \<noteq> []"
  by (induction s) (auto split: list.splits)

lemma splitOn_append: "splitOn c (xs @ c # ys) = splitOn c xs @ splitOn c ys"
proof (induction xs)
  case Nil
  then show ?case by simp
next
  case (Cons x xs)
  then show ?case
    using splitOn_nonempty [of c xs] by (cases "splitOn c xs") auto
qed

lemma joinSegments_snoc:
  "joinSegments (ss @ [b]) = (if ss = [] then b else joinSegments ss @ ''/'' @ b)"
  by (induction ss rule: joinSegments.induct) auto

lemma basename_last_segment:
  assumes "b \<noteq> []" and "CHR ''/'' \<notin> set b"
  shows "basename (x @ ''/'' @ b) = b"
proof -
  obtain c cs where r: "rev b = c # cs" using assms(1) by (cases "rev b") auto
  then have c: "c \<noteq> CHR ''/''" using assms(2) by (metis list.set_intros(1) set_rev)
  have t: "takeWhile (\<lambda>c. c \<noteq> CHR ''/'') (rev b @ CHR ''/'' # rev x) = rev b"
    using assms(2) by (subst takeWhile_append2) auto
  have "dropWhile (\<lambda>c. c = CHR ''/'') (rev b @ CHR ''/'' # rev x) = rev b @ CHR ''/'' # rev x"
    using r c by simp
  then show ?thesis by (simp add: basename_def t)
qed

text \<open>
  For a name that is a single ordinary segment, the joined path is the normalised
  segments of the directory followed by that name.
\<close>

lemma path_join_child:
  assumes "b \<noteq> []" and "b \<noteq> ''.''" and "b \<noteq> ''..''" and "CHR ''/'' \<notin> set b"
  shows "path_join d b =
           (if d \<noteq> [] \<and> hd d = CHR ''/'' then ''/'' else []) @
           joinSegments
             (foldl (normalizeStep (\<not> (d \<noteq> [] \<and> hd d = CHR ''/''))) [] (splitOn CHR ''/'' d) @ [b])"
proof (cases "d = []")
  case True
  have "last b \<noteq> CHR ''/''" using assms(1,4) by (metis last_in_set)
  moreover have "hd b \<noteq> CHR ''/''" using assms(1,4) by (metis hd_in_set)
  ultimately show ?thesis
    using True assms
    by (simp add: path_join_def normalize_def normalizeString_def splitOn_plain normalizeStep_def)
next
  case False
  define p where "p = d @ ''/'' @ b"
  define a where "a \<longleftrightarrow> hd d = CHR ''/''"
  have pj: "path_join d b = normalize p"
    using False assms(1) by (simp add: path_join_def p_def)
  have pne: "p \<noteq> []" by (simp add: p_def)
  have h: "hd p = hd d" using False by (simp add: p_def)
  have "last p = last b" using assms(1) by (simp add: p_def)
  then have l: "last p \<noteq> CHR ''/''" using assms(1,4) by (metis last_in_set)
  have s: "splitOn CHR ''/'' p = splitOn CHR ''/'' d @ [b]"
    using splitOn_append [of "CHR ''/''" d b] assms(4) by (simp add: splitOn_plain p_def)
  have st: "normalizeStep allow res b = res @ [b]" for allow res
    using assms(1-3) by (simp add: normalizeStep_def)
  have n: "normalizeString p allow =
             joinSegments (foldl (normalizeStep allow) [] (splitOn CHR ''/'' d) @ [b])" for allow
    by (simp add: normalizeString_def s st)
  have ne: "normalizeString p allow \<noteq> []" for allow
    using assms(1) by (simp add: n joinSegments_snoc)
  have "normalize p = (if a then ''/'' else []) @ normalizeString p (\<not> a)"
    using pne l ne by (simp add: normalize_def Let_def h a_def)
  then show ?thesis
    using False by (simp add: pj n a_def)
qed

lemma getLocalBackupPath_child:
  assumes "basename name \<noteq> []" and "basename name \<noteq> ''.''" and "basename name \<noteq> ''..''"
  shows "basename (getLocalBackupPath name w) = basename name"
proof -
  define d where "d = localPath (backupCfg w)"
  define b where "b = basename name"
  define a where "a \<longleftrightarrow> d \<noteq> [] \<and> hd d = CHR ''/''"
  define ss where "ss = foldl (normalizeStep (\<not> a)) [] (splitOn CHR ''/'' d)"
  have ns: "CHR ''/'' \<notin> set b" by (simp add: b_def basename_no_slash)
  have ne: "b \<noteq> []" using assms(1) by (simp add: b_def)
  have "path_join d b = (if a then ''/'' else []) @ joinSegments (ss @ [b])"
    unfolding a_def ss_def using assms ns by (intro path_join_child) (simp_all add: b_def)
  then have p: "getLocalBackupPath name w = (if a then ''/'' else []) @ joinSegments (ss @ [b])"
    by (simp add: getLocalBackupPath_def d_def b_def)
  show ?thesis
  proof (cases "ss = []")
    case True
    show ?thesis
    proof (cases a)
      case True
      then have "getLocalBackupPath name w = [] @ ''/'' @ b"
        using p \<open>ss = []\<close> by simp
      then show ?thesis
        using basename_last_segment [OF ne ns, of "[]"] by (simp add: b_def)
    next
      case False
      then have "getLocalBackupPath name w = b"
        using p \<open>ss = []\<close> by simp
      then show ?thesis by (simp add: b_def basename_idem)
    qed
  next
    case False
    then have "getLocalBackupPath name w =
                 ((if a then ''/'' else []) @ joinSegments ss) @ ''/'' @ b"
      using p by (simp add: joinSegments_snoc)
    then have "basename (getLocalBackupPath name w) =
                 basename (((if a then ''/'' else []) @ joinSegments ss) @ ''/'' @ b)"
      by (rule arg_cong)
    also have "\<dots> = b" by (rule basename_last_segment [OF ne ns])
    finally show ?thesis by (simp add: b_def)
  qed
qed

text \<open>
  C10. For the file name \<open>..\<close>, whose base name is \<open>..\<close> itself, the resolved path is
  the parent of the backup directory \<open>./backups\<close>; for \<open>../../etc/passwd\<close> it is a file
  of the directory.
\<close>

theorem getLocalBackupPath_dotdot:
  "localPath (backupCfg bothWorld) = ''./backups'' \<and>
   basename ''..'' = ''..'' \<and>
   getLocalBackupPath ''..'' bothWorld = ''.'' \<and>
   getLocalBackupPath ''../../etc/passwd'' bothWorld = ''backups/passwd''"
  by code_simp

end
